theory Spec2Isabelle
  imports Complex_Main
begin

section \<open>Numbers and arrays\<close>

text \<open>
  The program computes with numpy \<open>float64\<close> arrays. An array element is modelled as an
  exact real, an infinity or \<open>nan\<close>, with the IEEE rules for the non-finite values: \<open>nan\<close>
  is absorbing, \<open>inf - inf\<close>, \<open>0 * inf\<close>, \<open>0/0\<close> and \<open>inf/inf\<close> are \<open>nan\<close>, \<open>a/0\<close> for
  \<open>a \<noteq> 0\<close> is an infinity with the sign of \<open>a\<close>, and a finite number divided by an
  infinity is 0. numpy does not raise on a division by zero, it stores these values.

  Outside the model: rounding, and with it overflow and underflow (in \<open>float64\<close> the sum of
  squares of a very small non-zero vector is \<open>0.0\<close>, here it is not zero); the sign of a
  zero (every zero is \<open>+0\<close>); and element types other than \<open>float64\<close> (an integer array,
  into which numpy truncates what is assigned, cannot be written down here).
\<close>

datatype npfloat = Fin real | PInf | MInf | NaN

fun np_isfinite :: "npfloat \<Rightarrow> bool" where
  "np_isfinite (Fin a) = True"
| "np_isfinite _ = False"

fun np_negative :: "npfloat \<Rightarrow> npfloat" where
  "np_negative (Fin a) = Fin (- a)"
| "np_negative PInf = MInf"
| "np_negative MInf = PInf"
| "np_negative NaN = NaN"

instantiation npfloat :: "{plus, minus, times}"
begin

fun plus_npfloat :: "npfloat \<Rightarrow> npfloat \<Rightarrow> npfloat" where
  "plus_npfloat (Fin a) (Fin b) = Fin (a + b)"
| "plus_npfloat NaN _ = NaN"
| "plus_npfloat _ NaN = NaN"
| "plus_npfloat PInf MInf = NaN"
| "plus_npfloat MInf PInf = NaN"
| "plus_npfloat PInf _ = PInf"
| "plus_npfloat _ PInf = PInf"
| "plus_npfloat MInf _ = MInf"
| "plus_npfloat _ MInf = MInf"

fun minus_npfloat :: "npfloat \<Rightarrow> npfloat \<Rightarrow> npfloat" where
  "minus_npfloat (Fin a) (Fin b) = Fin (a - b)"
| "minus_npfloat a b = a + np_negative b"

fun times_npfloat :: "npfloat \<Rightarrow> npfloat \<Rightarrow> npfloat" where
  "times_npfloat (Fin a) (Fin b) = Fin (a * b)"
| "times_npfloat NaN _ = NaN"
| "times_npfloat _ NaN = NaN"
| "times_npfloat (Fin a) PInf = (if a = 0 then NaN else if 0 < a then PInf else MInf)"
| "times_npfloat (Fin a) MInf = (if a = 0 then NaN else if 0 < a then MInf else PInf)"
| "times_npfloat PInf (Fin b) = (if b = 0 then NaN else if 0 < b then PInf else MInf)"
| "times_npfloat MInf (Fin b) = (if b = 0 then NaN else if 0 < b then MInf else PInf)"
| "times_npfloat PInf PInf = PInf"
| "times_npfloat PInf MInf = MInf"
| "times_npfloat MInf PInf = MInf"
| "times_npfloat MInf MInf = PInf"

instance ..

end

fun np_divide :: "npfloat \<Rightarrow> npfloat \<Rightarrow> npfloat" where
  "np_divide (Fin a) (Fin b) =
     (if b \<noteq> 0 then Fin (a / b) else if a = 0 then NaN else if 0 < a then PInf else MInf)"
| "np_divide NaN _ = NaN"
| "np_divide _ NaN = NaN"
| "np_divide (Fin a) _ = Fin 0"
| "np_divide PInf (Fin b) = (if 0 \<le> b then PInf else MInf)"
| "np_divide MInf (Fin b) = (if 0 \<le> b then MInf else PInf)"
| "np_divide _ _ = NaN"

fun np_sqrt :: "npfloat \<Rightarrow> npfloat" where
  "np_sqrt (Fin a) = (if a < 0 then NaN else Fin (sqrt a))"
| "np_sqrt PInf = PInf"
| "np_sqrt _ = NaN"

text \<open>
  An \<open>ndarray\<close> is its shape and its elements in row-major order. One-dimensional arrays
  are used through their element list.
\<close>

record ndarray =
  shape :: "nat list"
  data :: "npfloat list"

definition wf_arr :: "ndarray \<Rightarrow> bool" where
  "wf_arr a = (length (data a) = prod_list (shape a))"

definition vec :: "npfloat list \<Rightarrow> ndarray" where
  "vec xs = \<lparr>shape = [length xs], data = xs\<rparr>"

text \<open>\<open>c * u\<close>, \<open>u + w\<close>, \<open>u - w\<close>, \<open>u / c\<close> and \<open>np.dot(u, w)\<close> on one-dimensional arrays
  of equal length.\<close>

definition scal :: "npfloat \<Rightarrow> npfloat list \<Rightarrow> npfloat list" where
  "scal c u = map (\<lambda>a. c * a) u"

definition vadd :: "npfloat list \<Rightarrow> npfloat list \<Rightarrow> npfloat list" where
  "vadd u w = map2 (\<lambda>a b. a + b) u w"

definition vsub :: "npfloat list \<Rightarrow> npfloat list \<Rightarrow> npfloat list" where
  "vsub u w = map2 (\<lambda>a b. a - b) u w"

definition vdiv :: "npfloat list \<Rightarrow> npfloat \<Rightarrow> npfloat list" where
  "vdiv u c = map (\<lambda>a. np_divide a c) u"

fun np_sum :: "npfloat list \<Rightarrow> npfloat" where
  "np_sum [] = Fin 0"
| "np_sum (a # as) = a + np_sum as"

definition dot :: "npfloat list \<Rightarrow> npfloat list \<Rightarrow> npfloat" where
  "dot u w = np_sum (map2 (\<lambda>a b. a * b) u w)"

text \<open>\<open>A[:, i]\<close> read and \<open>A[:, i] = u\<close> written, for a two-dimensional array \<open>A\<close>.\<close>

definition nrows :: "ndarray \<Rightarrow> nat" where
  "nrows A = hd (shape A)"

definition ncols :: "ndarray \<Rightarrow> nat" where
  "ncols A = hd (tl (shape A))"

definition get_col :: "ndarray \<Rightarrow> nat \<Rightarrow> npfloat list" where
  "get_col A i = map (\<lambda>r. data A ! (r * ncols A + i)) [0..<nrows A]"

definition set_col :: "ndarray \<Rightarrow> nat \<Rightarrow> npfloat list \<Rightarrow> ndarray" where
  "set_col A i u =
     A\<lparr>data := map (\<lambda>k. if k mod ncols A = i then u ! (k div ncols A) else data A ! k)
                    [0..<nrows A * ncols A]\<rparr>"

section \<open>The column update\<close>

text \<open>
  The body of \<open>for i in range(q)\<close> in \<open>fit_next\<close> (reference path), on the arrays'
  values. \<open>lambda_[i] = ...\<close> and \<open>Uhat[:, i] = ...\<close> write into the estimator's arrays;
  \<open>v\<close> and the new \<open>x\<close> are arrays built by the expressions on the right. The state is
  \<open>(lambda, Uhat, x)\<close>, where \<open>lambda\<close> is the source's \<open>lambda_\<close>; \<open>t\<close> is the counter as
  a number. The body of the inner loop of \<open>_iterate_and_compute_errors\<close> is the same text.
\<close>

fun col_step :: "real \<Rightarrow> real \<Rightarrow> ndarray \<times> ndarray \<times> npfloat list \<Rightarrow> nat \<Rightarrow>
    ndarray \<times> ndarray \<times> npfloat list" where
  "col_step t ell (lambda, Uhat, x) i =
     (let v = vadd (scal (Fin (max 1 (t - ell) / (t + 1)) * data lambda ! i) (get_col Uhat i))
                   (scal (Fin ((1 + ell) / (t + 1)) * dot x (get_col Uhat i)) x);
          lambda = lambda\<lparr>data := (data lambda)[i := np_sqrt (dot v v)]\<rparr>;
          Uhat = set_col Uhat i (vdiv v (data lambda ! i));
          x = vsub x (scal (dot x (get_col Uhat i)) (get_col Uhat i))
      in (lambda, Uhat, x))"

text \<open>The body of the inner loop of \<open>_iterate\<close>, which writes \<open>max(t - ell, 1)\<close>.\<close>

fun iterate_col_step :: "real \<Rightarrow> real \<Rightarrow> ndarray \<times> ndarray \<times> npfloat list \<Rightarrow> nat \<Rightarrow>
    ndarray \<times> ndarray \<times> npfloat list" where
  "iterate_col_step t ell (lambda, Uhat, x) i =
     (let v = vadd (scal (Fin (max (t - ell) 1 / (t + 1)) * data lambda ! i) (get_col Uhat i))
                   (scal (Fin ((1 + ell) / (t + 1)) * dot x (get_col Uhat i)) x);
          lambda = lambda\<lparr>data := (data lambda)[i := np_sqrt (dot v v)]\<rparr>;
          Uhat = set_col Uhat i (vdiv v (data lambda ! i));
          x = vsub x (scal (dot x (get_col Uhat i)) (get_col Uhat i))
      in (lambda, Uhat, x))"

section \<open>The estimator\<close>

datatype error = AssertionError | ValueError | ZeroDivisionError | IndexError

text \<open>The attributes of a \<open>CCIPCA_CLASS\<close> object; \<open>self_lambda\<close> is \<open>self.lambda_\<close>.\<close>

record estimator =
  self_Uhat :: ndarray
  self_lambda :: ndarray
  self_t :: nat
  self_q :: nat
  self_d :: nat
  self_ell :: real
  self_cython :: bool
  self_v :: ndarray

text \<open>
  \<open>np.random.normal(loc, scale, size)\<close> (\<open>sz\<close> is \<open>size\<close>): the generator is a parameter, the sequence \<open>z\<close> of
  its standard normal draws; the array has the requested shape.
\<close>

definition np_random_normal :: "(nat \<Rightarrow> real) \<Rightarrow> real \<Rightarrow> real \<Rightarrow> nat list \<Rightarrow> ndarray" where
  "np_random_normal z loc scale sz =
     \<lparr>shape = sz, data = map (\<lambda>k. Fin (loc + scale * z k)) [0..<prod_list sz]\<rparr>"

definition np_zeros :: "nat \<Rightarrow> ndarray" where
  "np_zeros d = \<lparr>shape = [d], data = replicate d (Fin 0)\<rparr>"

text \<open>
  The initial guesses, the same statements in \<open>CCIPCA_CLASS.__init__\<close> and in \<open>CCIPCA\<close>. A
  failed \<open>assert\<close> is \<open>AssertionError\<close>; \<open>1 / d\<close> on the integer \<open>d = 0\<close> is
  \<open>ZeroDivisionError\<close>. The second component of \<open>initial_Uhat\<close> is the number of draws taken.
\<close>

definition initial_Uhat :: "(nat \<Rightarrow> real) \<Rightarrow> nat \<Rightarrow> nat \<Rightarrow> ndarray option \<Rightarrow> error + ndarray \<times> nat" where
  "initial_Uhat z d q Uhat0 =
     (case Uhat0 of
        Some U0 \<Rightarrow> if shape U0 = [d, q] then Inr (U0, 0) else Inl AssertionError
      | None \<Rightarrow> if d = 0 then Inl ZeroDivisionError
                else Inr (np_random_normal z 0 (1 / real d) [d, q], d * q))"

definition initial_lambda :: "(nat \<Rightarrow> real) \<Rightarrow> nat \<Rightarrow> ndarray option \<Rightarrow> error + ndarray" where
  "initial_lambda z q lambda0 =
     (case lambda0 of
        Some l0 \<Rightarrow> if shape l0 = [q] then Inr l0 else Inl AssertionError
      | None \<Rightarrow> (let r = np_random_normal z 0 1 [q]
                 in Inr (r\<lparr>data := vdiv (data r) (np_sqrt (Fin (real q)))\<rparr>)))"

definition CCIPCA_CLASS_init :: "(nat \<Rightarrow> real) \<Rightarrow> nat \<Rightarrow> nat \<Rightarrow> ndarray option \<Rightarrow> ndarray option \<Rightarrow>
    real \<Rightarrow> bool \<Rightarrow> error + estimator" where
  "CCIPCA_CLASS_init z q d Uhat0 lambda0 ell cython =
     (case initial_Uhat z d q Uhat0 of
        Inl e \<Rightarrow> Inl e
      | Inr (Uhat, used) \<Rightarrow>
          (case initial_lambda (\<lambda>k. z (used + k)) q lambda0 of
             Inl e \<Rightarrow> Inl e
           | Inr lambda \<Rightarrow>
               Inr \<lparr>self_Uhat = Uhat, self_lambda = lambda, self_t = 1, self_q = q, self_d = d,
                    self_ell = ell, self_cython = cython, self_v = np_zeros d\<rparr>))"

text \<open>
  \<open>fit\<close> hands the work to \<open>coord_update.coord_update_total\<close>, a compiled kernel that is a
  parameter here; it returns the pair assigned to \<open>self.Uhat, self.lambda_\<close>.
  \<open>X.shape[-1]\<close> on an array without dimensions is \<open>IndexError\<close>.
\<close>

type_synonym kernel_total =
  "ndarray \<Rightarrow> nat \<Rightarrow> nat \<Rightarrow> real \<Rightarrow> real \<Rightarrow> ndarray \<Rightarrow> ndarray \<Rightarrow> nat \<Rightarrow> ndarray \<Rightarrow> ndarray \<times> ndarray"

definition fit :: "kernel_total \<Rightarrow> estimator \<Rightarrow> ndarray \<Rightarrow> error + estimator" where
  "fit coord_update_total self X =
     (if shape X = [] then Inl IndexError
      else (let (Uhat, lambda) =
                  coord_update_total X (last (shape X)) (self_d self) (real (self_t self))
                    (self_ell self) (self_lambda self) (self_Uhat self) (self_q self) (self_v self)
            in Inr (self\<lparr>self_Uhat := Uhat, self_lambda := lambda\<rparr>)))"

subsection \<open>The single-sample update and the caller's buffer\<close>

text \<open>
  The sample is the caller's array, so \<open>fit_next\<close> is modelled over a store of arrays: an
  address is an index into the list, and a new array is appended. \<open>x_.copy()\<close> allocates;
  \<open>x = x_\<close> makes \<open>x\<close> the caller's address. In the loop, \<open>x = x - ...\<close> builds a new array
  and binds the name \<open>x\<close> to it: \<open>col_step_h\<close> reads the working array through \<open>x\<close> and
  returns the address of the new one. The estimator's own arrays are values of the record
  (the constructor copies the initial guesses); a sample that is a view of them is outside
  the model.
\<close>

type_synonym store = "ndarray list"

fun col_step_h :: "real \<Rightarrow> real \<Rightarrow> store \<times> ndarray \<times> ndarray \<times> nat \<Rightarrow> nat \<Rightarrow>
    store \<times> ndarray \<times> ndarray \<times> nat" where
  "col_step_h t ell (h, lambda, Uhat, x) i =
     (case col_step t ell (lambda, Uhat, data (h ! x)) i of
        (lambda, Uhat, xnew) \<Rightarrow> (h @ [vec xnew], lambda, Uhat, length h))"

text \<open>
  \<open>coord_update.coord_update\<close>, the compiled kernel of the optimized path, is a parameter: from
  the sample array it is handed and the estimator's fields it returns the pair assigned to
  \<open>self.Uhat, self.lambda_\<close> and the contents it leaves in the sample array.
\<close>

type_synonym kernel =
  "ndarray \<Rightarrow> nat \<Rightarrow> real \<Rightarrow> real \<Rightarrow> ndarray \<Rightarrow> ndarray \<Rightarrow> nat \<Rightarrow> ndarray \<Rightarrow> (ndarray \<times> ndarray) \<times> ndarray"

text \<open>
  \<open>fit_next\<close> returns the exception raised, if any, the store and the estimator after the
  call. \<open>x_arg\<close> is the address of the source's \<open>x_\<close>.
\<close>

definition fit_next :: "kernel \<Rightarrow> store \<Rightarrow> estimator \<Rightarrow> nat \<Rightarrow> bool \<Rightarrow> error option \<times> store \<times> estimator" where
  "fit_next coord_update h self x_arg in_place =
     (case (if \<not> in_place then (h @ [h ! x_arg], length h) else (h, x_arg)) of
        (h, x) \<Rightarrow>
          if shape (h ! x) \<noteq> [self_d self] then (Some AssertionError, h, self)
          else if self_cython self then
            (case coord_update (h ! x) (self_d self) (real (self_t self)) (self_ell self)
                    (self_lambda self) (self_Uhat self) (self_q self) (self_v self) of
               ((Uhat, lambda), xk) \<Rightarrow>
                 (None, h[x := xk],
                  self\<lparr>self_Uhat := Uhat, self_lambda := lambda, self_t := self_t self + 1\<rparr>))
          else
            (case foldl (col_step_h (real (self_t self)) (self_ell self))
                    (h, self_lambda self, self_Uhat self, x) [0..<self_q self] of
               (h, lambda, Uhat, x) \<Rightarrow>
                 (None, h,
                  self\<lparr>self_Uhat := Uhat, self_lambda := lambda, self_t := self_t self + 1\<rparr>)))"

text \<open>A caller's loop of calls, one per \<open>(address, in_place)\<close>, that stops at an exception.\<close>

fun fit_many :: "kernel \<Rightarrow> store \<Rightarrow> estimator \<Rightarrow> (nat \<times> bool) list \<Rightarrow> error option \<times> store \<times> estimator" where
  "fit_many K h self [] = (None, h, self)"
| "fit_many K h self ((x, ip) # xs) =
     (case fit_next K h self x ip of
        (Some e, h', self') \<Rightarrow> (Some e, h', self')
      | (None, h', self') \<Rightarrow> fit_many K h' self' xs)"

section \<open>The streaming driver\<close>

text \<open>
  \<open>_iterate\<close>: \<open>for t in range(1, n_its)\<close> is a fold over \<open>[1..<n_its]\<close>. \<open>x = X[:, j]\<close> is only
  read before \<open>x\<close> is bound to a new array, so \<open>X\<close> is a value. The third component of the
  loop state is a ghost trace of the pairs \<open>(t, j)\<close> in the order of the iterations; nothing
  reads it.
\<close>

definition iterate_step :: "ndarray \<Rightarrow> real \<Rightarrow> nat \<Rightarrow> nat \<Rightarrow> ndarray \<times> ndarray \<times> (nat \<times> nat) list \<Rightarrow> nat \<Rightarrow>
    ndarray \<times> ndarray \<times> (nat \<times> nat) list" where
  "iterate_step X ell n q st t =
     (case st of (lambda, Uhat, trace) \<Rightarrow>
        (let j = t mod n;
             x = get_col X j
         in (case foldl (iterate_col_step (real t) ell) (lambda, Uhat, x) [0..<q] of
               (lambda, Uhat, x) \<Rightarrow> (lambda, Uhat, trace @ [(t, j)]))))"

definition iterate_loop :: "ndarray \<Rightarrow> ndarray \<Rightarrow> ndarray \<Rightarrow> real \<Rightarrow> nat \<Rightarrow> nat \<Rightarrow> nat \<Rightarrow>
    ndarray \<times> ndarray \<times> (nat \<times> nat) list" where
  "iterate_loop X lambda Uhat ell n_its n q =
     foldl (iterate_step X ell n q) (lambda, Uhat, []) [1..<n_its]"

definition iterate :: "ndarray \<Rightarrow> ndarray \<Rightarrow> ndarray \<Rightarrow> real \<Rightarrow> nat \<Rightarrow> nat \<Rightarrow> nat \<Rightarrow> ndarray" where
  "iterate X lambda Uhat ell n_its n q =
     (case iterate_loop X lambda Uhat ell n_its n q of (lambda, Uhat, trace) \<Rightarrow> Uhat)"

text \<open>
  \<open>_iterate_and_compute_errors\<close>: \<open>util.initialize_errors\<close> and \<open>util.compute_errors\<close> are
  parameters; the second one writes into \<open>errs\<close> and is given as the function from the old
  contents to the new.
\<close>

definition iterate_and_compute_errors ::
    "('o \<Rightarrow> nat \<Rightarrow> 'e) \<Rightarrow> ('o \<Rightarrow> ndarray \<Rightarrow> nat \<Rightarrow> 'e \<Rightarrow> 'e) \<Rightarrow>
     ndarray \<Rightarrow> ndarray \<Rightarrow> ndarray \<Rightarrow> real \<Rightarrow> nat \<Rightarrow> nat \<Rightarrow> nat \<Rightarrow> 'o \<Rightarrow> 'e" where
  "iterate_and_compute_errors initialize_errors compute_errors X lambda Uhat ell n_its n q error_options =
     (let errs = initialize_errors error_options n_its
      in (case foldl (\<lambda>(lambda, Uhat, errs) t.
                  (let j = t mod n;
                       errs = compute_errors error_options Uhat t errs;
                       x = get_col X j
                   in (case foldl (col_step (real t) ell) (lambda, Uhat, x) [0..<q] of
                         (lambda, Uhat, x) \<Rightarrow> (lambda, Uhat, errs))))
                (lambda, Uhat, errs) [1..<n_its] of
            (lambda, Uhat, errs) \<Rightarrow> errs))"

text \<open>What a call of \<open>CCIPCA\<close> can return: Python values.\<close>

datatype 'e pyval = PyArray ndarray | PyErrs 'e | PyTuple "'e pyval list"

text \<open>\<open>d, n = X.shape\<close> raises \<open>ValueError\<close> unless \<open>X\<close> has two dimensions.\<close>

definition CCIPCA ::
    "('o \<Rightarrow> nat \<Rightarrow> 'e) \<Rightarrow> ('o \<Rightarrow> ndarray \<Rightarrow> nat \<Rightarrow> 'e \<Rightarrow> 'e) \<Rightarrow> (nat \<Rightarrow> real) \<Rightarrow>
     ndarray \<Rightarrow> nat \<Rightarrow> nat \<Rightarrow> 'o option \<Rightarrow> ndarray option \<Rightarrow> ndarray option \<Rightarrow> real \<Rightarrow> error + 'e pyval" where
  "CCIPCA initialize_errors compute_errors z X q n_epoch error_options Uhat0 lambda0 ell =
     (case shape X of
        [d, n] \<Rightarrow>
          (case initial_Uhat z d q Uhat0 of
             Inl e \<Rightarrow> Inl e
           | Inr (Uhat, used) \<Rightarrow>
               (case initial_lambda (\<lambda>k. z (used + k)) q lambda0 of
                  Inl e \<Rightarrow> Inl e
                | Inr lambda \<Rightarrow>
                    (let n_its = n_epoch * n
                     in (case error_options of
                           Some eo \<Rightarrow>
                             Inr (PyErrs (iterate_and_compute_errors initialize_errors compute_errors
                                            X lambda Uhat ell n_its n q eo))
                         | None \<Rightarrow> Inr (PyArray (iterate X lambda Uhat ell n_its n q))))))
      | _ \<Rightarrow> Inl ValueError)"

section \<open>Shapes of the estimator's state\<close>

text \<open>
  The constructor gives \<open>Uhat\<close> the shape \<open>(d, q)\<close> and \<open>lambda_\<close> the shape \<open>(q,)\<close>, and the
  update keeps them. On such states no index of the column loop is out of range and the
  operands of every vector operation have the same length; the loop is modelled for them.
\<close>

definition wf_est :: "estimator \<Rightarrow> bool" where
  "wf_est self =
     (shape (self_Uhat self) = [self_d self, self_q self] \<and> wf_arr (self_Uhat self) \<and>
      shape (self_lambda self) = [self_q self] \<and> wf_arr (self_lambda self))"

text \<open>The same shapes for the state of the column loop, with a working vector of length \<open>d\<close>.\<close>

definition wf3 :: "nat \<Rightarrow> nat \<Rightarrow> ndarray \<times> ndarray \<times> npfloat list \<Rightarrow> bool" where
  "wf3 d q st =
     (case st of (lam, U, x) \<Rightarrow>
        shape U = [d, q] \<and> wf_arr U \<and> shape lam = [q] \<and> wf_arr lam \<and> length x = d)"

text \<open>
  The estimator after one update of the reference path on the sample contents \<open>xs\<close>: the
  column loop on values, and the counter.
\<close>

definition ref_update :: "estimator \<Rightarrow> npfloat list \<Rightarrow> estimator" where
  "ref_update self xs =
     (case foldl (col_step (real (self_t self)) (self_ell self))
             (self_lambda self, self_Uhat self, xs) [0..<self_q self] of
        (lambda, Uhat, x) \<Rightarrow>
          self\<lparr>self_Uhat := Uhat, self_lambda := lambda, self_t := self_t self + 1\<rparr>)"

section \<open>The update as the specification words it\<close>

definition age_weight :: "nat \<Rightarrow> real \<Rightarrow> real" where
  "age_weight t ell = max 1 (real t - ell) / (real t + 1)"

definition new_weight :: "nat \<Rightarrow> real \<Rightarrow> real" where
  "new_weight t ell = (1 + ell) / (real t + 1)"

definition provisional :: "nat \<Rightarrow> real \<Rightarrow> npfloat \<Rightarrow> npfloat list \<Rightarrow> npfloat list \<Rightarrow> npfloat list" where
  "provisional t ell l u x =
     vadd (scal (Fin (age_weight t ell) * l) u) (scal (Fin (new_weight t ell) * dot x u) x)"

definition euclid_norm :: "npfloat list \<Rightarrow> npfloat" where
  "euclid_norm u = np_sqrt (dot u u)"

definition deflate :: "npfloat list \<Rightarrow> npfloat list \<Rightarrow> npfloat list" where
  "deflate x u = vsub x (scal (dot x u) u)"

text \<open>The sample deflated by the columns \<open>0, ..., i-1\<close> of \<open>U\<close>, in this order.\<close>

fun deflated :: "ndarray \<Rightarrow> npfloat list \<Rightarrow> nat \<Rightarrow> npfloat list" where
  "deflated U x 0 = x"
| "deflated U x (Suc i) = deflate (deflated U x i) (get_col U i)"

section \<open>The driver as the specification words it\<close>

text \<open>
  One single-sample update on values: the column loop of \<open>fit_next\<close> on the reference path,
  applied to \<open>(lambda, Uhat)\<close> and a sample.
\<close>

definition sample_update :: "real \<Rightarrow> real \<Rightarrow> nat \<Rightarrow> ndarray \<times> ndarray \<Rightarrow> npfloat list \<Rightarrow>
    ndarray \<times> ndarray" where
  "sample_update t ell q st x =
     (case st of (lam, U) \<Rightarrow>
        (case foldl (col_step t ell) (lam, U, x) [0..<q] of (lam', U', x') \<Rightarrow> (lam', U')))"

text \<open>The updates for a list of pairs \<open>(t, j)\<close>, in order: at counter \<open>t\<close>, on column \<open>j\<close> of \<open>X\<close>.\<close>

definition updates_on :: "ndarray \<Rightarrow> real \<Rightarrow> nat \<Rightarrow> ndarray \<times> ndarray \<Rightarrow> (nat \<times> nat) list \<Rightarrow>
    ndarray \<times> ndarray" where
  "updates_on X ell q st sched =
     foldl (\<lambda>st (t, j). sample_update (real t) ell q st (get_col X j)) st sched"

text \<open>
  The iterations \<open>t = 1, ..., n_epoch * n - 1\<close>, each with its column: the columns are those
  of \<open>n_epoch\<close> passes \<open>0, ..., n - 1\<close> without the first one.
\<close>

definition schedule :: "nat \<Rightarrow> nat \<Rightarrow> (nat \<times> nat) list" where
  "schedule n_epoch n = zip [1..<n_epoch * n] (tl (concat (replicate n_epoch [0..<n])))"

section \<open>Example inputs\<close>

text \<open>A kernel that returns the arrays it was given, where a concrete kernel is needed.\<close>

definition K_id :: kernel where
  "K_id x d t ell lambda Uhat q v = ((Uhat, lambda), x)"

definition U1 :: ndarray where
  "U1 = \<lparr>shape = [1, 1], data = [Fin 1]\<rparr>"

text \<open>The estimator built from \<open>q = 1\<close>, \<open>d = 1\<close>, \<open>Uhat0 = [[1]]\<close>, \<open>lambda0 = [1]\<close>, \<open>ell = 2\<close>,
  \<open>cython = False\<close>.\<close>

definition E1 :: estimator where
  "E1 = \<lparr>self_Uhat = U1, self_lambda = vec [Fin 1], self_t = 1, self_q = 1, self_d = 1,
          self_ell = 2, self_cython = False, self_v = np_zeros 1\<rparr>"

text \<open>The same estimator with \<open>lambda0 = [0]\<close>.\<close>

definition E0 :: estimator where
  "E0 = \<lparr>self_Uhat = U1, self_lambda = vec [Fin 0], self_t = 1, self_q = 1, self_d = 1,
          self_ell = 2, self_cython = False, self_v = np_zeros 1\<rparr>"

text \<open>Sample matrices with \<open>d = 1\<close> and \<open>n = 2\<close>, and a \<open>1\<close> by \<open>2\<close> initial guess.\<close>

definition X2 :: ndarray where
  "X2 = \<lparr>shape = [1, 2], data = [Fin 1, Fin 1]\<rparr>"

definition X0 :: ndarray where
  "X0 = \<lparr>shape = [1, 2], data = [Fin 0, Fin 0]\<rparr>"

definition W2 :: ndarray where
  "W2 = \<lparr>shape = [1, 2], data = [Fin 1, Fin 0]\<rparr>"

text \<open>A kernel that doubles the sample array it is handed, and a batch kernel that returns the
  arrays it was given.\<close>

definition K_twice :: kernel where
  "K_twice x d t ell lambda Uhat q v = ((Uhat, lambda), x\<lparr>data := map (\<lambda>a. a + a) (data x)\<rparr>)"

definition KT_id :: kernel_total where
  "KT_id X n d t ell lambda Uhat q v = (Uhat, lambda)"

text \<open>
  An estimator with \<open>d = q = 2\<close>: \<open>Uhat = [[1, -3/5], [0, 4/5]]\<close>, \<open>lambda = [25, 1]\<close>,
  \<open>t = 1\<close>, \<open>ell = 2\<close>, reference path.
\<close>

definition U2 :: ndarray where
  "U2 = \<lparr>shape = [2, 2], data = [Fin 1, Fin (- (3 / 5)), Fin 0, Fin (4 / 5)]\<rparr>"

definition E2 :: estimator where
  "E2 = \<lparr>self_Uhat = U2, self_lambda = vec [Fin 25, Fin 1], self_t = 1, self_q = 2, self_d = 2,
          self_ell = 2, self_cython = False, self_v = np_zeros 2\<rparr>"

text \<open>A sample matrix with \<open>d = 1\<close> and two different columns.\<close>

definition X3 :: ndarray where
  "X3 = \<lparr>shape = [1, 2], data = [Fin 2, Fin 1]\<rparr>"

text \<open>
  A sample matrix with \<open>d = 2\<close> and the columns \<open>[1, 0]\<close> and \<open>[5, 5]\<close>, and a \<open>2\<close> by \<open>1\<close>
  initial guess.
\<close>

definition X4 :: ndarray where
  "X4 = \<lparr>shape = [2, 2], data = [Fin 1, Fin 5, Fin 0, Fin 5]\<rparr>"

definition U4 :: ndarray where
  "U4 = \<lparr>shape = [2, 1], data = [Fin 1, Fin 0]\<rparr>"

section \<open>Basic facts\<close>


lemma length_scal [simp]: "length (scal c u) = length u"
  by (simp add: scal_def)

lemma length_vadd [simp]: "length (vadd u w) = min (length u) (length w)"
  by (simp add: vadd_def)

lemma length_vsub [simp]: "length (vsub u w) = min (length u) (length w)"
  by (simp add: vsub_def)

lemma length_vdiv [simp]: "length (vdiv u c) = length u"
  by (simp add: vdiv_def)

lemma length_get_col [simp]: "length (get_col A i) = nrows A"
  by (simp add: get_col_def)

lemma shape_set_col [simp]: "shape (set_col A i u) = shape A"
  by (simp add: set_col_def)

lemma nrows_set_col [simp]: "nrows (set_col A i u) = nrows A"
  by (simp add: nrows_def)

lemma ncols_set_col [simp]: "ncols (set_col A i u) = ncols A"
  by (simp add: ncols_def)

lemma length_data_set_col [simp]: "length (data (set_col A i u)) = nrows A * ncols A"
  by (simp add: set_col_def)

lemma get_col_set_col_same:
  assumes "i < ncols A" and "length u = nrows A"
  shows "get_col (set_col A i u) i = u"
proof (rule nth_equalityI)
  show "length (get_col (set_col A i u) i) = length u"
    using assms by simp
next
  fix r assume "r < length (get_col (set_col A i u) i)"
  then have r: "r < nrows A" by simp
  have "r * ncols A + i < r * ncols A + ncols A" using assms by simp
  also have "\<dots> = Suc r * ncols A" by simp
  also have "\<dots> \<le> nrows A * ncols A" using r by (intro mult_le_mono1) simp
  finally have k: "r * ncols A + i < nrows A * ncols A" .
  show "get_col (set_col A i u) i ! r = u ! r"
    using r k assms by (simp add: get_col_def set_col_def nrows_def ncols_def)
qed

lemma get_col_set_col_other:
  assumes "i < ncols A" and "j < ncols A" and "j \<noteq> i"
  shows "get_col (set_col A i u) j = get_col A j"
proof (rule nth_equalityI)
  show "length (get_col (set_col A i u) j) = length (get_col A j)" by simp
next
  fix r assume "r < length (get_col (set_col A i u) j)"
  then have r: "r < nrows A" by simp
  have "r * ncols A + j < r * ncols A + ncols A" using assms by simp
  also have "\<dots> = Suc r * ncols A" by simp
  also have "\<dots> \<le> nrows A * ncols A" using r by (intro mult_le_mono1) simp
  finally have k: "r * ncols A + j < nrows A * ncols A" .
  show "get_col (set_col A i u) j ! r = get_col A j ! r"
    using r k assms by (simp add: get_col_def set_col_def nrows_def ncols_def)
qed

section \<open>The single-sample update\<close>

lemma foldl_col_step_h:
  assumes "x < length h"
  shows "\<exists>hs l U x'. foldl (col_step_h t ell) (h, lam, U0, x) js = (h @ hs, l, U, x') \<and>
           x' < length (h @ hs) \<and>
           foldl (col_step t ell) (lam, U0, data (h ! x)) js = (l, U, data ((h @ hs) ! x'))"
  using assms
proof (induction js arbitrary: h lam U0 x)
  case Nil
  have "foldl (col_step_h t ell) (h, lam, U0, x) [] = (h @ [], lam, U0, x)" by simp
  with Nil show ?case by (intro exI[of _ "[]"] exI[of _ lam] exI[of _ U0] exI[of _ x]) simp
next
  case (Cons j js)
  obtain l1 U1 x1 where s: "col_step t ell (lam, U0, data (h ! x)) j = (l1, U1, x1)"
    by (cases "col_step t ell (lam, U0, data (h ! x)) j") auto
  then have sh: "col_step_h t ell (h, lam, U0, x) j = (h @ [vec x1], l1, U1, length h)"
    by simp
  have "length h < length (h @ [vec x1])" by simp
  from Cons.IH[OF this, of l1 U1]
  obtain hs l U x' where
    r: "foldl (col_step_h t ell) (h @ [vec x1], l1, U1, length h) js = ((h @ [vec x1]) @ hs, l, U, x')"
      "x' < length ((h @ [vec x1]) @ hs)"
      "foldl (col_step t ell) (l1, U1, data ((h @ [vec x1]) ! length h)) js
         = (l, U, data (((h @ [vec x1]) @ hs) ! x'))"
    by blast
  have d: "data ((h @ [vec x1]) ! length h) = x1" by (simp add: vec_def)
  show ?case
    apply (rule exI[of _ "vec x1 # hs"], rule exI[of _ l], rule exI[of _ U], rule exI[of _ x'])
    using r d s sh by simp
qed

lemma fit_next_ref:
  assumes "\<not> self_cython self" and "x_arg < length h" and "shape (h ! x_arg) = [self_d self]"
  shows "\<exists>hs. fit_next K h self x_arg ip = (None, h @ hs, ref_update self (data (h ! x_arg)))"
proof (cases ip)
  case True
  obtain hs l U x' where
    r: "foldl (col_step_h (real (self_t self)) (self_ell self)) (h, self_lambda self, self_Uhat self, x_arg) [0..<self_q self]
          = (h @ hs, l, U, x')"
       "foldl (col_step (real (self_t self)) (self_ell self)) (self_lambda self, self_Uhat self, data (h ! x_arg)) [0..<self_q self]
          = (l, U, data ((h @ hs) ! x'))"
    using foldl_col_step_h[OF assms(2)] by blast
  show ?thesis
    using True assms r by (intro exI[of _ hs]) (simp add: fit_next_def ref_update_def)
next
  case False
  let ?h = "h @ [h ! x_arg]"
  have "length h < length ?h" by simp
  from foldl_col_step_h[OF this]
  obtain hs l U x' where
    r: "foldl (col_step_h (real (self_t self)) (self_ell self)) (?h, self_lambda self, self_Uhat self, length h) [0..<self_q self]
          = (?h @ hs, l, U, x')"
       "foldl (col_step (real (self_t self)) (self_ell self)) (self_lambda self, self_Uhat self, data (?h ! length h)) [0..<self_q self]
          = (l, U, data ((?h @ hs) ! x'))"
    by blast
  show ?thesis
    using False assms r by (intro exI[of _ "(h ! x_arg) # hs"]) (simp add: fit_next_def ref_update_def)
qed

lemma col_step_spec:
  "col_step (real t) ell (lam, U, x) i =
     (let v = provisional t ell (data lam ! i) (get_col U i) x;
          l' = lam\<lparr>data := (data lam)[i := euclid_norm v]\<rparr>;
          U' = set_col U i (vdiv v (data l' ! i))
      in (l', U', deflate x (get_col U' i)))"
  by (simp add: provisional_def age_weight_def new_weight_def euclid_norm_def deflate_def Let_def)

lemma iterate_col_step_eq: "iterate_col_step t ell st i = col_step t ell st i"
  by (cases st) (simp add: max.commute)

declare col_step.simps [simp del] iterate_col_step.simps [simp del]

lemma deflated_cong:
  "(\<And>j. j < i \<Longrightarrow> get_col A j = get_col B j) \<Longrightarrow> deflated A x i = deflated B x i"
  by (induction i) simp_all

lemma length_provisional [simp]:
  "length (provisional t ell l u x) = min (length u) (length x)"
  by (simp add: provisional_def)

lemma length_deflate [simp]: "length (deflate x u) = min (length x) (length u)"
  by (simp add: deflate_def)

lemma col_step_facts:
  assumes wf: "wf3 d q (lam, U, x)" and i: "i < q"
    and s: "col_step (real t) ell (lam, U, x) i = (l', U', x')"
  defines "v \<equiv> provisional t ell (data lam ! i) (get_col U i) x"
  shows "wf3 d q (l', U', x')"
    and "data l' ! i = euclid_norm v"
    and "get_col U' i = vdiv v (euclid_norm v)"
    and "x' = deflate x (get_col U' i)"
    and "\<And>j. j < q \<Longrightarrow> j \<noteq> i \<Longrightarrow> data l' ! j = data lam ! j \<and> get_col U' j = get_col U j"
proof -
  from wf have sh: "shape U = [d, q]" "shape lam = [q]" and lx: "length x = d"
    and wl: "wf_arr lam" and wu: "wf_arr U"
    by (simp_all add: wf3_def)
  have nr: "nrows U = d" and nc: "ncols U = q" using sh by (simp_all add: nrows_def ncols_def)
  have ll: "length (data lam) = q" using wl sh by (simp add: wf_arr_def)
  have lv: "length v = d" using nr lx by (simp add: v_def)
  have l': "l' = lam\<lparr>data := (data lam)[i := euclid_norm v]\<rparr>"
    using s by (simp add: col_step_spec v_def Let_def)
  show n: "data l' ! i = euclid_norm v" using l' ll i by simp
  have U': "U' = set_col U i (vdiv v (euclid_norm v))"
    using s n l' by (simp add: col_step_spec v_def Let_def)
  show c: "get_col U' i = vdiv v (euclid_norm v)"
    unfolding U' using i nc nr lv by (intro get_col_set_col_same) simp_all
  show x': "x' = deflate x (get_col U' i)"
    using s U' n l' by (simp add: col_step_spec v_def Let_def)
  show "wf3 d q (l', U', x')"
    using sh ll lx lv nr nc c unfolding wf3_def l' U' x'
    by (simp add: wf_arr_def)
  fix j assume "j < q" "j \<noteq> i"
  then show "data l' ! j = data lam ! j \<and> get_col U' j = get_col U j"
    unfolding l' U' using i nc by (simp add: get_col_set_col_other)
qed

lemma cols_invariant:
  assumes wf: "wf3 d q (lam, U, x)" and k: "k \<le> q"
    and f: "foldl (col_step (real t) ell) (lam, U, x) [0..<k] = (lk, Uk, xk)"
  shows "wf3 d q (lk, Uk, xk) \<and> xk = deflated Uk x k \<and>
         (\<forall>j. k \<le> j \<and> j < q \<longrightarrow> data lk ! j = data lam ! j \<and> get_col Uk j = get_col U j) \<and>
         (\<forall>i<k. data lk ! i =
                   euclid_norm (provisional t ell (data lam ! i) (get_col U i) (deflated Uk x i)) \<and>
                 get_col Uk i =
                   vdiv (provisional t ell (data lam ! i) (get_col U i) (deflated Uk x i))
                     (data lk ! i))"
  using k f
proof (induction k arbitrary: lk Uk xk)
  case 0
  then show ?case using wf by simp
next
  case (Suc k)
  obtain l1 U1 x1 where p: "foldl (col_step (real t) ell) (lam, U, x) [0..<k] = (l1, U1, x1)"
    by (cases "foldl (col_step (real t) ell) (lam, U, x) [0..<k]") auto
  have kq: "k < q" using Suc.prems by simp
  have "k \<le> q" using kq by simp
  note ih = Suc.IH[OF this p]
  have wf1: "wf3 d q (l1, U1, x1)" and x1: "x1 = deflated U1 x k"
    and rest: "\<And>j. k \<le> j \<Longrightarrow> j < q \<Longrightarrow> data l1 ! j = data lam ! j \<and> get_col U1 j = get_col U j"
    and prev: "\<And>i. i < k \<Longrightarrow> data l1 ! i =
                   euclid_norm (provisional t ell (data lam ! i) (get_col U i) (deflated U1 x i)) \<and>
                 get_col U1 i =
                   vdiv (provisional t ell (data lam ! i) (get_col U i) (deflated U1 x i))
                     (data l1 ! i)"
    using ih by blast+
  have s: "col_step (real t) ell (l1, U1, x1) k = (lk, Uk, xk)"
    using Suc.prems p by simp
  note cs = col_step_facts[OF wf1 kq s]
  have keep: "\<And>j. j < q \<Longrightarrow> j \<noteq> k \<Longrightarrow> data lk ! j = data l1 ! j \<and> get_col Uk j = get_col U1 j"
    using cs(5) by blast
  have same: "\<And>i. i \<le> k \<Longrightarrow> deflated Uk x i = deflated U1 x i"
  proof (rule deflated_cong)
    fix i j assume "i \<le> k" "j < i"
    then show "get_col Uk j = get_col U1 j" using keep[of j] kq by simp
  qed
  have a: "xk = deflated Uk x (Suc k)"
    using cs(4) x1 same[of k] by (simp add: deflate_def)
  have b: "\<forall>j. Suc k \<le> j \<and> j < q \<longrightarrow> data lk ! j = data lam ! j \<and> get_col Uk j = get_col U j"
    using keep rest by simp
  have c: "data lk ! i =
             euclid_norm (provisional t ell (data lam ! i) (get_col U i) (deflated Uk x i)) \<and>
           get_col Uk i =
             vdiv (provisional t ell (data lam ! i) (get_col U i) (deflated Uk x i)) (data lk ! i)"
    if "i < Suc k" for i
  proof (cases "i = k")
    case True
    show ?thesis
      using cs(2,3) rest[of k] kq x1 same[of k] unfolding True by simp
  next
    case False
    with that have ik: "i < k" by simp
    show ?thesis
      using prev[OF ik] keep[of i] ik kq same[of i] by simp
  qed
  show ?case using cs(1) a b c by blast
qed

lemma ref_update_frame [simp]:
  "self_cython (ref_update self xs) = self_cython self"
  "self_d (ref_update self xs) = self_d self"
  "self_q (ref_update self xs) = self_q self"
  "self_ell (ref_update self xs) = self_ell self"
  "self_t (ref_update self xs) = self_t self + 1"
  by (simp_all add: ref_update_def split: prod.splits)

lemma fit_next_t:
  "fit_next K h self x ip = (None, h', self') \<Longrightarrow> self_t self' = self_t self + 1"
  by (auto simp: fit_next_def split: if_splits prod.splits)

lemma fit_many_t:
  "fit_many K h self xs = (None, h', self') \<Longrightarrow> self_t self' = self_t self + length xs"
proof (induction xs arbitrary: h self)
  case Nil
  then show ?case by simp
next
  case (Cons p xs)
  obtain x ip where p: "p = (x, ip)" by (cases p)
  obtain e h1 self1 where r: "fit_next K h self x ip = (e, h1, self1)"
    by (cases "fit_next K h self x ip") auto
  show ?case
  proof (cases e)
    case None
    with Cons.prems p r have "fit_many K h1 self1 xs = (None, h', self')" by simp
    from Cons.IH[OF this] fit_next_t[of K h self x ip h1 self1] r None
    show ?thesis by simp
  next
    case (Some a)
    with Cons.prems p r show ?thesis by simp
  qed
qed

lemma init_t:
  "CCIPCA_CLASS_init z q d Uhat0 lambda0 ell cy = Inr self \<Longrightarrow> self_t self = 1"
  by (auto simp: CCIPCA_CLASS_init_def split: sum.splits prod.splits)

text \<open>The constructor builds an estimator whose arrays have the shapes \<open>(d, q)\<close> and \<open>(q,)\<close>.\<close>

lemma init_wf:
  assumes "CCIPCA_CLASS_init z q d Uhat0 lambda0 ell cy = Inr self"
    and "\<And>U0. Uhat0 = Some U0 \<Longrightarrow> wf_arr U0"
    and "\<And>l0. lambda0 = Some l0 \<Longrightarrow> wf_arr l0"
  shows "wf_est self \<and> self_d self = d \<and> self_q self = q \<and> self_ell self = ell \<and>
         self_cython self = cy"
  using assms
  by (auto simp: CCIPCA_CLASS_init_def initial_Uhat_def initial_lambda_def np_random_normal_def
      wf_est_def wf_arr_def Let_def split: option.splits if_splits sum.splits prod.splits)

lemma fit_many_ref_ok:
  assumes "\<not> self_cython self"
    and "\<forall>(x, ip) \<in> set xs. x < length h \<and> shape (h ! x) = [self_d self]"
  shows "\<exists>hs self'. fit_many K h self xs = (None, h @ hs, self')"
  using assms
proof (induction xs arbitrary: h self)
  case Nil
  show ?case by (intro exI[of _ "[]"]) simp
next
  case (Cons p xs)
  obtain x ip where p: "p = (x, ip)" by (cases p)
  have xv: "x < length h" "shape (h ! x) = [self_d self]" using Cons.prems(2) p by auto
  obtain hs where r: "fit_next K h self x ip = (None, h @ hs, ref_update self (data (h ! x)))"
    using fit_next_ref[OF Cons.prems(1) xv] by blast
  have "\<forall>(y, ip) \<in> set xs. y < length (h @ hs) \<and>
          shape ((h @ hs) ! y) = [self_d (ref_update self (data (h ! x)))]"
    using Cons.prems(2) by (auto simp: nth_append)
  from Cons.IH[OF _ this] Cons.prems(1)
  obtain hs' self' where
    "fit_many K (h @ hs) (ref_update self (data (h ! x))) xs = (None, (h @ hs) @ hs', self')"
    by auto
  with r p show ?case by (intro exI[of _ "hs @ hs'"] exI[of _ self']) simp
qed

text \<open>
  C8: the constructor sets the counter to 1; a call of \<open>fit_next\<close> that returns adds exactly
  one to it, on either path; and after \<open>n\<close> calls that all return, the counter is its
  initial value plus \<open>n\<close>.
\<close>


theorem counter_advances:
  "(CCIPCA_CLASS_init z q d Uhat0 lambda0 ell cy = Inr self0 \<longrightarrow> self_t self0 = 1) \<and>
   (fit_next K h self x ip = (None, h1, self1) \<longrightarrow> self_t self1 = self_t self + 1) \<and>
   (fit_many K h self xs = (None, h', self') \<longrightarrow> self_t self' = self_t self + length xs)"
  using init_t[of z q d Uhat0 lambda0 ell cy self0] fit_next_t[of K h self x ip h1 self1]
    fit_many_t[of K h self xs h' self']
  by simp

text \<open>An instance of C8: construction, then three calls on the reference path.\<close>

theorem counter_advances_witness:
  "CCIPCA_CLASS_init (\<lambda>k. 0) 1 1 (Some U1) (Some (vec [Fin 1])) 2 False = Inr E1 \<and>
   self_t E1 = 1 \<and>
   fst (fit_many K_id [vec [Fin 1]] E1 [(0, False), (0, True), (0, False)]) = None \<and>
   self_t (snd (snd (fit_many K_id [vec [Fin 1]] E1 [(0, False), (0, True), (0, False)]))) = 4"
proof -
  have a: "CCIPCA_CLASS_init (\<lambda>k. 0) 1 1 (Some U1) (Some (vec [Fin 1])) 2 False = Inr E1"
    by (simp add: CCIPCA_CLASS_init_def initial_Uhat_def initial_lambda_def U1_def E1_def vec_def)
  have "\<not> self_cython E1" by (simp add: E1_def)
  moreover have "\<forall>(x, ip) \<in> set [(0, False), (0, True), (0, False)].
      x < length [vec [Fin 1]] \<and> shape ([vec [Fin 1]] ! x) = [self_d E1]"
    by (simp add: E1_def vec_def)
  ultimately obtain hs self' where
    r: "fit_many K_id [vec [Fin 1]] E1 [(0, False), (0, True), (0, False)]
          = (None, [vec [Fin 1]] @ hs, self')"
    using fit_many_ref_ok by blast
  from counter_advances[of "\<lambda>k. 0" 1 1 "Some U1" "Some (vec [Fin 1])" 2 False E1
      K_id "[vec [Fin 1]]" E1 0 False "[]" E1 "[(0, False), (0, True), (0, False)]"
      "[vec [Fin 1]] @ hs" self'] a r
  show ?thesis by (simp add: E1_def)
qed

text \<open>
  C9: a call of \<open>fit_next\<close> with a sample whose shape is not \<open>(d,)\<close> raises the
  \<open>AssertionError\<close> of the shape check (the specification's ShapeMismatch) before the update
  starts: the estimator is returned as it was, and no array of the store is written (a
  copy is added when \<open>in_place\<close> is false).
\<close>


theorem fit_next_shape_mismatch:
  assumes "x_arg < length h" and "shape (h ! x_arg) \<noteq> [self_d self]"
  shows "fit_next K h self x_arg in_place =
           (Some AssertionError, (if in_place then h else h @ [h ! x_arg]), self)"
  using assms by (simp add: fit_next_def)

text \<open>An instance of C9: a sample of shape \<open>(2,)\<close> for \<open>d = 1\<close>.\<close>

theorem fit_next_shape_mismatch_witness:
  "0 < length [vec [Fin 1, Fin 2]] \<and> shape ([vec [Fin 1, Fin 2]] ! 0) \<noteq> [self_d E1] \<and>
   fit_next K_id [vec [Fin 1, Fin 2]] E1 0 True = (Some AssertionError, [vec [Fin 1, Fin 2]], E1) \<and>
   fit_next K_id [vec [Fin 1, Fin 2]] E1 0 False =
     (Some AssertionError, [vec [Fin 1, Fin 2], vec [Fin 1, Fin 2]], E1)"
proof -
  have h: "0 < length [vec [Fin 1, Fin 2]]" "shape ([vec [Fin 1, Fin 2]] ! 0) \<noteq> [self_d E1]"
    by (simp_all add: vec_def E1_def)
  show ?thesis
    using h fit_next_shape_mismatch[OF h, of K_id True] fit_next_shape_mismatch[OF h, of K_id False]
    by simp
qed

section \<open>The columns after an update\<close>

lemma wf_est_wf3:
  assumes "wf_est self" and "shape a = [self_d self]" and "wf_arr a"
  shows "wf3 (self_d self) (self_q self) (self_lambda self, self_Uhat self, data a)"
  using assms by (simp add: wf_est_def wf3_def wf_arr_def)

lemma ref_update_columns:
  assumes wf: "wf3 (self_d self) (self_q self) (self_lambda self, self_Uhat self, x)"
  shows "wf3 (self_d self) (self_q self)
           (self_lambda (ref_update self x), self_Uhat (ref_update self x),
            deflated (self_Uhat (ref_update self x)) x (self_q self)) \<and>
         (\<forall>i<self_q self.
            data (self_lambda (ref_update self x)) ! i =
              euclid_norm (provisional (self_t self) (self_ell self) (data (self_lambda self) ! i)
                (get_col (self_Uhat self) i) (deflated (self_Uhat (ref_update self x)) x i)) \<and>
            get_col (self_Uhat (ref_update self x)) i =
              vdiv (provisional (self_t self) (self_ell self) (data (self_lambda self) ! i)
                (get_col (self_Uhat self) i) (deflated (self_Uhat (ref_update self x)) x i))
                (data (self_lambda (ref_update self x)) ! i))"
proof -
  obtain l U xk where
    f: "foldl (col_step (real (self_t self)) (self_ell self))
          (self_lambda self, self_Uhat self, x) [0..<self_q self] = (l, U, xk)"
    by (cases "foldl (col_step (real (self_t self)) (self_ell self))
          (self_lambda self, self_Uhat self, x) [0..<self_q self]") auto
  have r: "self_lambda (ref_update self x) = l" "self_Uhat (ref_update self x) = U"
    using f by (simp_all add: ref_update_def)
  from cols_invariant[OF wf order_refl f] show ?thesis
    unfolding r by blast
qed

text \<open>
  C1: on the reference path, for \<open>float64\<close> arrays of the constructor's shapes, a call of
  \<open>fit_next\<close> with a sample of shape \<open>(d,)\<close> returns
  without an exception, advances the counter by one, and for every column \<open>i < q\<close> the new
  \<open>lambda[i]\<close> is the Euclidean norm of \<open>v\<close> and the new \<open>Uhat[:, i]\<close> is \<open>v / lambda[i]\<close>,
  where \<open>v = age_weight * lambda[i] * Uhat[:, i] + new_weight * dot(x, Uhat[:, i]) * x\<close> is
  computed from the old \<open>lambda[i]\<close> and the old column \<open>i\<close>, and \<open>x\<close> is the sample deflated
  by the new columns \<open>0, ..., i - 1\<close> in increasing order.
\<close>

theorem fit_next_columns:
  assumes "wf_est self" and "\<not> self_cython self"
    and "x_arg < length h" and "shape (h ! x_arg) = [self_d self]" and "wf_arr (h ! x_arg)"
    and "fit_next K h self x_arg in_place = (exc, h', self')"
  shows "exc = None \<and> self_t self' = self_t self + 1 \<and>
         (\<forall>i<self_q self.
            data (self_lambda self') ! i =
              euclid_norm (provisional (self_t self) (self_ell self) (data (self_lambda self) ! i)
                (get_col (self_Uhat self) i) (deflated (self_Uhat self') (data (h ! x_arg)) i)) \<and>
            get_col (self_Uhat self') i =
              vdiv (provisional (self_t self) (self_ell self) (data (self_lambda self) ! i)
                (get_col (self_Uhat self) i) (deflated (self_Uhat self') (data (h ! x_arg)) i))
                (data (self_lambda self') ! i))"
proof -
  obtain hs where "fit_next K h self x_arg in_place =
      (None, h @ hs, ref_update self (data (h ! x_arg)))"
    using fit_next_ref[OF assms(2,3,4)] by blast
  with assms(6) have e: "exc = None" and s: "self' = ref_update self (data (h ! x_arg))"
    by simp_all
  from ref_update_columns[OF wf_est_wf3[OF assms(1,4,5)]] e show ?thesis
    unfolding s by simp
qed

lemma sqrt4: "sqrt 4 = 2"
  using real_sqrt_abs[of 2] by simp

text \<open>
  An instance with two columns. Run on \<open>Uhat = [[1, -3/5], [0, 4/5]]\<close>, \<open>lambda = [25, 1]\<close>,
  \<open>t = 1\<close>, \<open>ell = 2\<close> and the sample \<open>[5, 5]\<close>, the loop gives \<open>v = [50, 75/2]\<close>,
  \<open>lambda[0] = 125/2\<close> and \<open>Uhat[:, 0] = [4/5, 3/5]\<close> for column 0, the deflated sample
  \<open>[-3/5, 4/5]\<close>, and \<open>v = [-6/5, 8/5]\<close>, \<open>lambda[1] = 2\<close> and \<open>Uhat[:, 1] = [-3/5, 4/5]\<close> for
  column 1.
\<close>

lemma sqrt_vals: "sqrt (15625 / 4) = 125 / 2" "sqrt 4 = 2"
  by (rule real_sqrt_unique; simp add: power2_eq_square)+

lemma data_vec: "data (vec xs) = xs"
  by (simp add: vec_def)

lemma upt2: "[0..<2] = [0, 1]" "[0..<4] = [0, 1, 2, 3]"
  by (simp_all add: upt_rec)

lemma get_col_22:
  "get_col \<lparr>shape = [2, 2], data = [a, b, c, e]\<rparr> 0 = [a, c]"
  "get_col \<lparr>shape = [2, 2], data = [a, b, c, e]\<rparr> (Suc 0) = [b, e]"
  by (simp_all add: get_col_def nrows_def ncols_def upt2)

lemma set_col_22:
  "set_col \<lparr>shape = [2, 2], data = [a, b, c, e]\<rparr> 0 [x, y] = \<lparr>shape = [2, 2], data = [x, b, y, e]\<rparr>"
  "set_col \<lparr>shape = [2, 2], data = [a, b, c, e]\<rparr> (Suc 0) [x, y] = \<lparr>shape = [2, 2], data = [a, x, c, y]\<rparr>"
  by (simp_all add: set_col_def nrows_def ncols_def upt2)

lemma step0:
  "col_step 1 2 (vec [Fin 25, Fin 1], U2, [Fin 5, Fin 5]) 0 =
     (vec [Fin (125 / 2), Fin 1],
      \<lparr>shape = [2, 2], data = [Fin (4 / 5), Fin (- (3 / 5)), Fin (3 / 5), Fin (4 / 5)]\<rparr>,
      [Fin (- (3 / 5)), Fin (4 / 5)])"
  by (simp add: col_step.simps Let_def U2_def vec_def get_col_22 set_col_22
      vadd_def vsub_def scal_def vdiv_def dot_def sqrt_vals)

lemma step1:
  "col_step 1 2 (vec [Fin (125 / 2), Fin 1],
      \<lparr>shape = [2, 2], data = [Fin (4 / 5), Fin (- (3 / 5)), Fin (3 / 5), Fin (4 / 5)]\<rparr>,
      [Fin (- (3 / 5)), Fin (4 / 5)]) (Suc 0) =
     (vec [Fin (125 / 2), Fin 2],
      \<lparr>shape = [2, 2], data = [Fin (4 / 5), Fin (- (3 / 5)), Fin (3 / 5), Fin (4 / 5)]\<rparr>,
      [Fin 0, Fin 0])"
  by (simp add: col_step.simps Let_def vec_def get_col_22 set_col_22
      vadd_def vsub_def scal_def vdiv_def dot_def sqrt_vals)

lemma fit_next_E2:
  "fit_next K_id [vec [Fin 5, Fin 5]] E2 0 False =
     (None,
      [vec [Fin 5, Fin 5], vec [Fin 5, Fin 5], vec [Fin (- (3 / 5)), Fin (4 / 5)], vec [Fin 0, Fin 0]],
      E2\<lparr>self_Uhat := \<lparr>shape = [2, 2], data = [Fin (4 / 5), Fin (- (3 / 5)), Fin (3 / 5), Fin (4 / 5)]\<rparr>,
         self_lambda := vec [Fin (125 / 2), Fin 2], self_t := 2\<rparr>)"
proof -
  have d: "data (vec [Fin 5, Fin 5]) = [Fin 5, Fin 5]" "shape (vec [Fin 5, Fin 5]) = [2]"
    by (simp_all add: vec_def)
  show ?thesis
    by (simp add: fit_next_def E2_def upt2 d step0 step1 data_vec)
qed

text \<open>The same values from C1, column by column.\<close>

theorem fit_next_columns_witness:
  "fst (fit_next K_id [vec [Fin 5, Fin 5]] E2 0 False) = None \<and>
   self_t (snd (snd (fit_next K_id [vec [Fin 5, Fin 5]] E2 0 False))) = 2 \<and>
   data (self_lambda (snd (snd (fit_next K_id [vec [Fin 5, Fin 5]] E2 0 False)))) ! 0 = Fin (125 / 2) \<and>
   get_col (self_Uhat (snd (snd (fit_next K_id [vec [Fin 5, Fin 5]] E2 0 False)))) 0 =
     [Fin (4 / 5), Fin (3 / 5)] \<and>
   deflated (self_Uhat (snd (snd (fit_next K_id [vec [Fin 5, Fin 5]] E2 0 False)))) [Fin 5, Fin 5] 1 =
     [Fin (- (3 / 5)), Fin (4 / 5)] \<and>
   data (self_lambda (snd (snd (fit_next K_id [vec [Fin 5, Fin 5]] E2 0 False)))) ! 1 = Fin 2 \<and>
   get_col (self_Uhat (snd (snd (fit_next K_id [vec [Fin 5, Fin 5]] E2 0 False)))) 1 =
     [Fin (- (3 / 5)), Fin (4 / 5)]"
proof -
  let ?r = "fit_next K_id [vec [Fin 5, Fin 5]] E2 0 False"
  let ?U = "self_Uhat (snd (snd ?r))"
  let ?l = "self_lambda (snd (snd ?r))"
  have h: "wf_est E2" "\<not> self_cython E2" "0 < length [vec [Fin 5, Fin 5]]"
    "shape ([vec [Fin 5, Fin 5]] ! 0) = [self_d E2]" "wf_arr ([vec [Fin 5, Fin 5]] ! 0)"
    "?r = (fst ?r, fst (snd ?r), snd (snd ?r))"
    by (simp_all add: E2_def U2_def wf_est_def wf_arr_def vec_def)
  note c = fit_next_columns[OF h]
  have e: "fst ?r = None" and t: "self_t (snd (snd ?r)) = 2"
    using c by (simp_all add: E2_def)
  have x: "data ([vec [Fin 5, Fin 5]] ! 0) = [Fin 5, Fin 5]" by (simp add: vec_def)
  have old: "data (self_lambda E2) = [Fin 25, Fin 1]" "get_col (self_Uhat E2) 0 = [Fin 1, Fin 0]"
    "get_col (self_Uhat E2) 1 = [Fin (- (3 / 5)), Fin (4 / 5)]"
    "self_t E2 = 1" "self_ell E2 = 2" "self_q E2 = 2"
    by (simp_all add: E2_def U2_def vec_def get_col_22)
  have p0: "provisional (Suc 0) 2 (Fin 25) [Fin 1, Fin 0] [Fin 5, Fin 5] = [Fin 50, Fin (75 / 2)]"
    by (simp add: provisional_def age_weight_def new_weight_def vadd_def scal_def dot_def)
  have n0: "euclid_norm [Fin 50, Fin (75 / 2)] = Fin (125 / 2)"
    by (simp add: euclid_norm_def dot_def sqrt_vals)
  have c0: "data ?l ! 0 = Fin (125 / 2) \<and> get_col ?U 0 = [Fin (4 / 5), Fin (3 / 5)]"
    using c[THEN conjunct2, THEN conjunct2, rule_format, of 0]
    unfolding x old by (simp add: p0 n0 vdiv_def)
  have d1: "deflated ?U [Fin 5, Fin 5] 1 = [Fin (- (3 / 5)), Fin (4 / 5)]"
    using c0 by (simp add: deflate_def vsub_def scal_def dot_def)
  have p1: "provisional (Suc 0) 2 (Fin 1) [Fin (- (3 / 5)), Fin (4 / 5)] [Fin (- (3 / 5)), Fin (4 / 5)] =
      [Fin (- (6 / 5)), Fin (8 / 5)]"
    by (simp add: provisional_def age_weight_def new_weight_def vadd_def scal_def dot_def)
  have n1: "euclid_norm [Fin (- (6 / 5)), Fin (8 / 5)] = Fin 2"
    by (simp add: euclid_norm_def dot_def sqrt_vals)
  have c1: "data ?l ! 1 = Fin 2 \<and> get_col ?U 1 = [Fin (- (3 / 5)), Fin (4 / 5)]"
    using c[THEN conjunct2, THEN conjunct2, rule_format, of 1]
    unfolding x old d1 by (simp add: p1 n1 vdiv_def)
  from e t c0 d1 c1 show ?thesis by simp
qed

section \<open>Unit norm and the zero eigenvalue\<close>

lemma map2_same: "map2 f u u = map (\<lambda>a. f a a) u"
  by (induction u) simp_all

lemma np_sum_Fin: "np_sum (map Fin rs) = Fin (sum_list rs)"
  by (induction rs) simp_all

lemma dot_Fin: "dot (map Fin rs) (map Fin rs) = Fin (\<Sum>r\<leftarrow>rs. r * r)"
  by (induction rs) (simp_all add: dot_def)

lemma plus_Fin_iff: "a + b = Fin s \<longleftrightarrow> (\<exists>x y. a = Fin x \<and> b = Fin y \<and> s = x + y)"
  by (cases a; cases b) auto

lemma times_Fin_iff: "a * b = Fin s \<longleftrightarrow> (\<exists>x y. a = Fin x \<and> b = Fin y \<and> s = x * y)"
  by (cases a; cases b) auto

lemma dot_self_Fin:
  "dot u u = Fin s \<Longrightarrow> \<exists>rs. u = map Fin rs"
proof (induction u arbitrary: s)
  case Nil
  then show ?case by simp
next
  case (Cons a u)
  from Cons.prems obtain x y where a: "a * a = Fin x" and r: "dot u u = Fin y"
    by (auto simp: dot_def plus_Fin_iff)
  from a obtain z where z: "a = Fin z" by (auto simp: times_Fin_iff)
  from Cons.IH[OF r] obtain rs where "u = map Fin rs" by blast
  with z have "a # u = map Fin (z # rs)" by simp
  then show ?case by (rule exI)
qed

lemma vdiv_Fin: "r \<noteq> 0 \<Longrightarrow> vdiv (map Fin rs) (Fin r) = map Fin (map (\<lambda>a. a / r) rs)"
  by (simp add: vdiv_def)

lemma np_divide_zero: "\<not> np_isfinite (np_divide a (Fin 0))"
  by (cases a) simp_all

lemma vdiv_zero: "a \<in> set (vdiv u (Fin 0)) \<Longrightarrow> \<not> np_isfinite a"
  by (auto simp: vdiv_def np_divide_zero)

lemma sum_sq_div:
  fixes r :: real
  shows "(\<Sum>a\<leftarrow>rs. a * a / (r * r)) = (\<Sum>a\<leftarrow>rs. a * a) / (r * r)"
  by (induction rs) (simp_all add: add_divide_distrib)

lemma euclid_norm_Fin:
  assumes "euclid_norm u = Fin r"
  obtains rs where "u = map Fin rs" and "r = sqrt (\<Sum>a\<leftarrow>rs. a * a)"
proof -
  from assms obtain s where s: "dot u u = Fin s" and r: "r = sqrt s"
    by (cases "dot u u") (auto simp: euclid_norm_def split: if_splits)
  from dot_self_Fin[OF s] obtain rs where u: "u = map Fin rs" by blast
  have "s = (\<Sum>a\<leftarrow>rs. a * a)" using s unfolding u dot_Fin by simp
  with u r that show ?thesis by blast
qed

lemma euclid_norm_vdiv:
  assumes "euclid_norm u = Fin r" and "r \<noteq> 0"
  shows "euclid_norm (vdiv u (Fin r)) = Fin 1"
proof -
  from assms(1) obtain rs where u: "u = map Fin rs" and r: "r = sqrt (\<Sum>a\<leftarrow>rs. a * a)"
    by (rule euclid_norm_Fin)
  have s0: "0 \<le> (\<Sum>a\<leftarrow>rs. a * a)" by (induction rs) simp_all
  have rr: "r * r = (\<Sum>a\<leftarrow>rs. a * a)" using r s0 by simp
  have "(\<Sum>a\<leftarrow>rs. a * a) \<noteq> 0" using rr assms(2) by auto
  have "dot (vdiv u (Fin r)) (vdiv u (Fin r)) = Fin ((\<Sum>a\<leftarrow>rs. a * a) / (r * r))"
    unfolding u vdiv_Fin[OF assms(2)] dot_Fin
    by (simp add: sum_sq_div comp_def)
  also have "\<dots> = Fin 1" using rr \<open>(\<Sum>a\<leftarrow>rs. a * a) \<noteq> 0\<close> by simp
  finally show ?thesis by (simp add: euclid_norm_def)
qed

lemma euclid_norm_vdiv_zero: "euclid_norm (vdiv u (Fin 0)) \<noteq> Fin 1"
proof
  assume "euclid_norm (vdiv u (Fin 0)) = Fin 1"
  then obtain rs where v: "vdiv u (Fin 0) = map Fin rs" and r: "1 = sqrt (\<Sum>a\<leftarrow>rs. a * a)"
    by (rule euclid_norm_Fin)
  from r have "rs \<noteq> []" by auto
  then obtain c cs where "rs = c # cs" by (cases rs) auto
  with v have "Fin c \<in> set (vdiv u (Fin 0))" by simp
  from vdiv_zero[OF this] show False by simp
qed

lemma cols_final:
  assumes wf: "wf3 d q (lam, U, x)"
    and f: "foldl (col_step (real t) ell) (lam, U, x) [0..<q] = (l', U', x')"
  shows "wf3 d q (l', U', x') \<and>
         (\<forall>i<q. ((\<exists>r. data l' ! i = Fin r \<and> r \<noteq> 0) \<longrightarrow> euclid_norm (get_col U' i) = Fin 1) \<and>
                (data l' ! i = Fin 0 \<longrightarrow>
                   length (get_col U' i) = d \<and> (\<forall>a\<in>set (get_col U' i). \<not> np_isfinite a) \<and>
                   euclid_norm (get_col U' i) \<noteq> Fin 1))"
proof -
  note inv = cols_invariant[OF wf order_refl f]
  have w: "wf3 d q (l', U', x')" using inv by blast
  then have nr: "nrows U' = d" by (simp add: wf3_def nrows_def)
  have "((\<exists>r. data l' ! i = Fin r \<and> r \<noteq> 0) \<longrightarrow> euclid_norm (get_col U' i) = Fin 1) \<and>
        (data l' ! i = Fin 0 \<longrightarrow>
           length (get_col U' i) = d \<and> (\<forall>a\<in>set (get_col U' i). \<not> np_isfinite a) \<and>
           euclid_norm (get_col U' i) \<noteq> Fin 1)" if i: "i < q" for i
  proof -
    define v where "v = provisional t ell (data lam ! i) (get_col U i) (deflated U' x i)"
    have l: "data l' ! i = euclid_norm v" and c: "get_col U' i = vdiv v (data l' ! i)"
      using inv i unfolding v_def by blast+
    have lv: "length v = d" using arg_cong[OF c, of length] nr by simp
    have 1: "euclid_norm (get_col U' i) = Fin 1" if "data l' ! i = Fin r" "r \<noteq> 0" for r
      using euclid_norm_vdiv[of v r] that l c by simp
    have 2: "length (get_col U' i) = d \<and> (\<forall>a\<in>set (get_col U' i). \<not> np_isfinite a) \<and>
        euclid_norm (get_col U' i) \<noteq> Fin 1" if z: "data l' ! i = Fin 0"
      using lv vdiv_zero[of _ v] euclid_norm_vdiv_zero[of v] unfolding c z by simp
    from 1 2 show ?thesis by blast
  qed
  with w show ?thesis by blast
qed

lemma foldl_iterate_col_step:
  "foldl (iterate_col_step t ell) st js = foldl (col_step t ell) st js"
proof -
  have "iterate_col_step t ell = col_step t ell"
    by (intro ext) (rule iterate_col_step_eq)
  then show ?thesis by simp
qed

lemma ref_update_final:
  assumes "wf_est self" and "shape a = [self_d self]" and "wf_arr a"
  shows "wf_est (ref_update self (data a)) \<and>
         (\<forall>i<self_q self.
            ((\<exists>r. data (self_lambda (ref_update self (data a))) ! i = Fin r \<and> r \<noteq> 0) \<longrightarrow>
               euclid_norm (get_col (self_Uhat (ref_update self (data a))) i) = Fin 1) \<and>
            (data (self_lambda (ref_update self (data a))) ! i = Fin 0 \<longrightarrow>
               length (get_col (self_Uhat (ref_update self (data a))) i) = self_d self \<and>
               (\<forall>c\<in>set (get_col (self_Uhat (ref_update self (data a))) i). \<not> np_isfinite c) \<and>
               euclid_norm (get_col (self_Uhat (ref_update self (data a))) i) \<noteq> Fin 1))"
proof -
  obtain l U xk where
    f: "foldl (col_step (real (self_t self)) (self_ell self))
          (self_lambda self, self_Uhat self, data a) [0..<self_q self] = (l, U, xk)"
    by (cases "foldl (col_step (real (self_t self)) (self_ell self))
          (self_lambda self, self_Uhat self, data a) [0..<self_q self]") auto
  have r: "self_lambda (ref_update self (data a)) = l" "self_Uhat (ref_update self (data a)) = U"
    using f by (simp_all add: ref_update_def)
  note c = cols_final[OF wf_est_wf3[OF assms] f]
  then have "wf3 (self_d self) (self_q self) (l, U, xk)" by blast
  then have "wf_est (ref_update self (data a))"
    unfolding wf_est_def r by (simp add: wf3_def)
  with c show ?thesis unfolding r by blast
qed

lemma iterate_step_final:
  assumes "shape U = [d, q]" and "wf_arr U" and "shape lam = [q]" and "wf_arr lam"
    and "nrows X = d"
    and s: "iterate_step X ell n q (lam, U, tr) t = (lam', U', tr')"
  shows "shape U' = [d, q] \<and> wf_arr U' \<and> shape lam' = [q] \<and> wf_arr lam' \<and>
         (\<forall>i<q. ((\<exists>r. data lam' ! i = Fin r \<and> r \<noteq> 0) \<longrightarrow> euclid_norm (get_col U' i) = Fin 1) \<and>
                (data lam' ! i = Fin 0 \<longrightarrow>
                   length (get_col U' i) = d \<and> (\<forall>a\<in>set (get_col U' i). \<not> np_isfinite a) \<and>
                   euclid_norm (get_col U' i) \<noteq> Fin 1))"
proof -
  have wf: "wf3 d q (lam, U, get_col X (t mod n))"
    using assms(1-5) by (simp add: wf3_def)
  obtain xk where
    f: "foldl (col_step (real t) ell) (lam, U, get_col X (t mod n)) [0..<q] = (lam', U', xk)"
    using s by (auto simp: iterate_step_def Let_def foldl_iterate_col_step split: prod.splits)
  from cols_final[OF wf f] show ?thesis by (simp add: wf3_def)
qed

text \<open>
  C7: after an update of the reference path of \<open>fit_next\<close>, and after an iteration of the
  streaming driver, \<open>Uhat\<close> is still \<open>d\<close> by \<open>q\<close> and \<open>lambda\<close> still has length \<open>q\<close>; a column
  of \<open>Uhat\<close> whose new \<open>lambda[i]\<close> is a finite number other than zero has Euclidean norm 1
  (exactly, in the exact arithmetic of the model), and a column whose new \<open>lambda[i]\<close> is
  zero does not.
\<close>

theorem unit_norm_after_update:
  "(wf_est self \<and> \<not> self_cython self \<and> x_arg < length h \<and> shape (h ! x_arg) = [self_d self] \<and>
    wf_arr (h ! x_arg) \<and> fit_next K h self x_arg in_place = (exc, h', self') \<longrightarrow>
      wf_est self' \<and> self_d self' = self_d self \<and> self_q self' = self_q self \<and>
      (\<forall>i<self_q self.
         ((\<exists>r. data (self_lambda self') ! i = Fin r \<and> r \<noteq> 0) \<longrightarrow>
            euclid_norm (get_col (self_Uhat self') i) = Fin 1) \<and>
         (data (self_lambda self') ! i = Fin 0 \<longrightarrow>
            euclid_norm (get_col (self_Uhat self') i) \<noteq> Fin 1))) \<and>
   (shape U = [d, q] \<and> wf_arr U \<and> shape lam = [q] \<and> wf_arr lam \<and> nrows X = d \<and>
    iterate_step X ell n q (lam, U, tr) t = (lam', U', tr') \<longrightarrow>
      shape U' = [d, q] \<and> wf_arr U' \<and> shape lam' = [q] \<and> wf_arr lam' \<and>
      (\<forall>i<q. ((\<exists>r. data lam' ! i = Fin r \<and> r \<noteq> 0) \<longrightarrow> euclid_norm (get_col U' i) = Fin 1) \<and>
             (data lam' ! i = Fin 0 \<longrightarrow> euclid_norm (get_col U' i) \<noteq> Fin 1)))"
proof (rule conjI; rule impI)
  assume a: "wf_est self \<and> \<not> self_cython self \<and> x_arg < length h \<and>
    shape (h ! x_arg) = [self_d self] \<and> wf_arr (h ! x_arg) \<and>
    fit_next K h self x_arg in_place = (exc, h', self')"
  then obtain hs where "fit_next K h self x_arg in_place =
      (None, h @ hs, ref_update self (data (h ! x_arg)))"
    using fit_next_ref[of self x_arg h K in_place] by blast
  with a have s: "self' = ref_update self (data (h ! x_arg))" by simp
  from a have "wf_est self" "shape (h ! x_arg) = [self_d self]" "wf_arr (h ! x_arg)"
    by simp_all
  from ref_update_final[OF this]
  show "wf_est self' \<and> self_d self' = self_d self \<and> self_q self' = self_q self \<and>
      (\<forall>i<self_q self.
         ((\<exists>r. data (self_lambda self') ! i = Fin r \<and> r \<noteq> 0) \<longrightarrow>
            euclid_norm (get_col (self_Uhat self') i) = Fin 1) \<and>
         (data (self_lambda self') ! i = Fin 0 \<longrightarrow>
            euclid_norm (get_col (self_Uhat self') i) \<noteq> Fin 1))"
    unfolding s by simp
next
  assume a: "shape U = [d, q] \<and> wf_arr U \<and> shape lam = [q] \<and> wf_arr lam \<and> nrows X = d \<and>
    iterate_step X ell n q (lam, U, tr) t = (lam', U', tr')"
  then have "shape U = [d, q]" "wf_arr U" "shape lam = [q]" "wf_arr lam" "nrows X = d"
    "iterate_step X ell n q (lam, U, tr) t = (lam', U', tr')"
    by simp_all
  from iterate_step_final[OF this]
  show "shape U' = [d, q] \<and> wf_arr U' \<and> shape lam' = [q] \<and> wf_arr lam' \<and>
      (\<forall>i<q. ((\<exists>r. data lam' ! i = Fin r \<and> r \<noteq> 0) \<longrightarrow> euclid_norm (get_col U' i) = Fin 1) \<and>
             (data lam' ! i = Fin 0 \<longrightarrow> euclid_norm (get_col U' i) \<noteq> Fin 1))"
    by simp
qed

text \<open>
  C5, as stated, fails: with \<open>Uhat = [[1]]\<close>, \<open>lambda = [0]\<close> and the sample \<open>[0]\<close> the
  provisional vector is \<open>[0]\<close>, the new \<open>lambda[0]\<close> is 0, and the call returns without an
  exception, having stored \<open>0/0\<close> in \<open>Uhat\<close> and advanced the counter.
\<close>

theorem fit_next_degenerate_value:
  "fit_next K_id [vec [Fin 0]] E0 0 False =
     (None, [vec [Fin 0], vec [Fin 0], vec [NaN]],
      E0\<lparr>self_Uhat := \<lparr>shape = [1, 1], data = [NaN]\<rparr>, self_lambda := vec [Fin 0], self_t := 2\<rparr>)"
  by (simp add: fit_next_def E0_def U1_def vec_def col_step.simps get_col_def set_col_def
      nrows_def ncols_def vadd_def vsub_def scal_def vdiv_def dot_def)

text \<open>
  C7, as stated, fails on the same input: the column after the update is not a unit vector.
\<close>

theorem unit_norm_counterexample:
  "euclid_norm (get_col (self_Uhat (snd (snd (fit_next K_id [vec [Fin 0]] E0 0 False)))) 0) = NaN"
  by (simp add: fit_next_def E0_def U1_def vec_def col_step.simps get_col_def set_col_def
      nrows_def ncols_def vadd_def vsub_def scal_def vdiv_def dot_def euclid_norm_def)

lemmas eval_defs = fit_next_def iterate_step_def U1_def vec_def col_step.simps iterate_col_step.simps
  get_col_def set_col_def nrows_def ncols_def vadd_def vsub_def scal_def vdiv_def dot_def
  euclid_norm_def wf_est_def wf_arr_def

text \<open>
  Instances of C7 for \<open>fit_next\<close> and for an iteration of the driver: unit columns for
  \<open>d = q = 1\<close> and for \<open>d = q = 2\<close>, and a column whose \<open>lambda\<close> is zero.
\<close>

theorem unit_norm_after_update_witness:
  "wf_est (snd (snd (fit_next K_id [vec [Fin 1]] E1 0 False))) \<and>
   euclid_norm (get_col (self_Uhat (snd (snd (fit_next K_id [vec [Fin 1]] E1 0 False)))) 0) = Fin 1 \<and>
   euclid_norm (get_col (fst (snd (iterate_step X2 2 2 1 (vec [Fin 1], U1, []) 1))) 0) = Fin 1 \<and>
   euclid_norm (get_col (self_Uhat (snd (snd (fit_next K_id [vec [Fin 0]] E0 0 False)))) 0) \<noteq> Fin 1 \<and>
   euclid_norm (get_col (fst (snd (iterate_step X0 2 2 1 (vec [Fin 0], U1, []) 1))) 0) \<noteq> Fin 1 \<and>
   euclid_norm (get_col (self_Uhat (snd (snd (fit_next K_id [vec [Fin 5, Fin 5]] E2 0 False)))) 0) = Fin 1 \<and>
   euclid_norm (get_col (self_Uhat (snd (snd (fit_next K_id [vec [Fin 5, Fin 5]] E2 0 False)))) 1) = Fin 1"
proof -
  let ?e = "fit_next K_id [vec [Fin 5, Fin 5]] E2 0 False"
  have h2: "wf_est E2 \<and> \<not> self_cython E2 \<and> 0 < length [vec [Fin 5, Fin 5]] \<and>
      shape ([vec [Fin 5, Fin 5]] ! 0) = [self_d E2] \<and> wf_arr ([vec [Fin 5, Fin 5]] ! 0) \<and>
      ?e = (fst ?e, fst (snd ?e), snd (snd ?e))"
    by (simp add: E2_def U2_def wf_est_def wf_arr_def vec_def)
  have l2: "data (self_lambda (snd (snd ?e))) ! 0 = Fin (125 / 2)"
    "data (self_lambda (snd (snd ?e))) ! 1 = Fin 2"
    unfolding fit_next_E2 by (simp_all add: vec_def)
  have q2: "self_q E2 = 2" by (simp add: E2_def)
  from unit_norm_after_update[of E2 0 "[vec [Fin 5, Fin 5]]" K_id False "fst ?e" "fst (snd ?e)"
      "snd (snd ?e)", THEN conjunct1] h2
  have "\<forall>i<2. ((\<exists>r. data (self_lambda (snd (snd ?e))) ! i = Fin r \<and> r \<noteq> 0) \<longrightarrow>
            euclid_norm (get_col (self_Uhat (snd (snd ?e))) i) = Fin 1)"
    unfolding q2 by blast
  moreover have "\<exists>r. data (self_lambda (snd (snd ?e))) ! 0 = Fin r \<and> r \<noteq> 0"
    "\<exists>r. data (self_lambda (snd (snd ?e))) ! 1 = Fin r \<and> r \<noteq> 0"
    unfolding l2 by (rule exI[of _ "125 / 2"], simp) (rule exI[of _ 2], simp)
  ultimately
  have C: "euclid_norm (get_col (self_Uhat (snd (snd ?e))) 0) = Fin 1 \<and>
      euclid_norm (get_col (self_Uhat (snd (snd ?e))) 1) = Fin 1"
    by simp
  let ?r = "fit_next K_id [vec [Fin 1]] E1 0 False"
  let ?s = "iterate_step X2 2 2 1 (vec [Fin 1], U1, []) 1"
  let ?rz = "fit_next K_id [vec [Fin 0]] E0 0 False"
  let ?sz = "iterate_step X0 2 2 1 (vec [Fin 0], U1, []) 1"
  have h: "wf_est E1 \<and> \<not> self_cython E1 \<and> 0 < length [vec [Fin 1]] \<and>
      shape ([vec [Fin 1]] ! 0) = [self_d E1] \<and> wf_arr ([vec [Fin 1]] ! 0) \<and>
      ?r = (fst ?r, fst (snd ?r), snd (snd ?r))"
    by (simp add: E1_def U1_def wf_est_def wf_arr_def vec_def)
  have l: "data (self_lambda (snd (snd ?r))) ! 0 = Fin 2"
    by (simp add: eval_defs E1_def sqrt4)
  have g: "shape U1 = [1, 1] \<and> wf_arr U1 \<and> shape (vec [Fin 1]) = [1] \<and> wf_arr (vec [Fin 1]) \<and>
      nrows X2 = 1 \<and> ?s = (fst ?s, fst (snd ?s), snd (snd ?s))"
    by (simp add: U1_def X2_def wf_arr_def vec_def nrows_def)
  have m: "data (fst ?s) ! 0 = Fin 2"
    by (simp add: eval_defs X2_def sqrt4)
  have h0: "wf_est E0 \<and> \<not> self_cython E0 \<and> 0 < length [vec [Fin 0]] \<and>
      shape ([vec [Fin 0]] ! 0) = [self_d E0] \<and> wf_arr ([vec [Fin 0]] ! 0) \<and>
      ?rz = (fst ?rz, fst (snd ?rz), snd (snd ?rz))"
    by (simp add: E0_def U1_def wf_est_def wf_arr_def vec_def)
  have l0: "data (self_lambda (snd (snd ?rz))) ! 0 = Fin 0"
    by (simp add: eval_defs E0_def)
  have g0: "shape U1 = [1, 1] \<and> wf_arr U1 \<and> shape (vec [Fin 0]) = [1] \<and> wf_arr (vec [Fin 0]) \<and>
      nrows X0 = 1 \<and> ?sz = (fst ?sz, fst (snd ?sz), snd (snd ?sz))"
    by (simp add: U1_def X0_def wf_arr_def vec_def nrows_def)
  have m0: "data (fst ?sz) ! 0 = Fin 0"
    by (simp add: eval_defs X0_def)
  from unit_norm_after_update[of E1 0 "[vec [Fin 1]]" K_id False "fst ?r" "fst (snd ?r)"
      "snd (snd ?r)" U1 1 1 "vec [Fin 1]" X2 2 2 "[]" 1 "fst ?s" "fst (snd ?s)" "snd (snd ?s)"]
    h g l m
  have A: "wf_est (snd (snd ?r)) \<and>
      euclid_norm (get_col (self_Uhat (snd (snd ?r))) 0) = Fin 1 \<and>
      euclid_norm (get_col (fst (snd ?s)) 0) = Fin 1"
    by (simp add: E1_def)
  from unit_norm_after_update[of E0 0 "[vec [Fin 0]]" K_id False "fst ?rz" "fst (snd ?rz)"
      "snd (snd ?rz)" U1 1 1 "vec [Fin 0]" X0 2 2 "[]" 1 "fst ?sz" "fst (snd ?sz)" "snd (snd ?sz)"]
    h0 g0 l0 m0
  have B: "euclid_norm (get_col (self_Uhat (snd (snd ?rz))) 0) \<noteq> Fin 1 \<and>
      euclid_norm (get_col (fst (snd ?sz)) 0) \<noteq> Fin 1"
    by (simp add: E0_def)
  from A B C show ?thesis by simp
qed

text \<open>
  C5: a zero eigenvalue estimate is not detected. On the reference path a call of
  \<open>fit_next\<close> with a sample of shape \<open>(d,)\<close> never raises and advances the counter, and
  wherever the new \<open>lambda[i]\<close> is zero, the division by it has been carried out: column \<open>i\<close>
  of \<open>Uhat\<close> holds \<open>d\<close> values none of which is finite. The same holds for an iteration of
  the streaming driver.
\<close>

theorem zero_eigenvalue_undetected:
  "(wf_est self \<and> \<not> self_cython self \<and> x_arg < length h \<and> shape (h ! x_arg) = [self_d self] \<and>
    wf_arr (h ! x_arg) \<and> fit_next K h self x_arg in_place = (exc, h', self') \<longrightarrow>
      exc = None \<and> self_t self' = self_t self + 1 \<and>
      (\<forall>i<self_q self. data (self_lambda self') ! i = Fin 0 \<longrightarrow>
         length (get_col (self_Uhat self') i) = self_d self \<and>
         (\<forall>c\<in>set (get_col (self_Uhat self') i). \<not> np_isfinite c))) \<and>
   (shape U = [d, q] \<and> wf_arr U \<and> shape lam = [q] \<and> wf_arr lam \<and> nrows X = d \<and>
    iterate_step X ell n q (lam, U, tr) t = (lam', U', tr') \<longrightarrow>
      (\<forall>i<q. data lam' ! i = Fin 0 \<longrightarrow>
         length (get_col U' i) = d \<and> (\<forall>c\<in>set (get_col U' i). \<not> np_isfinite c)))"
proof (rule conjI; rule impI)
  assume a: "wf_est self \<and> \<not> self_cython self \<and> x_arg < length h \<and>
    shape (h ! x_arg) = [self_d self] \<and> wf_arr (h ! x_arg) \<and>
    fit_next K h self x_arg in_place = (exc, h', self')"
  then obtain hs where "fit_next K h self x_arg in_place =
      (None, h @ hs, ref_update self (data (h ! x_arg)))"
    using fit_next_ref[of self x_arg h K in_place] by blast
  with a have s: "self' = ref_update self (data (h ! x_arg))" and e: "exc = None" by simp_all
  from a have "wf_est self" "shape (h ! x_arg) = [self_d self]" "wf_arr (h ! x_arg)"
    by simp_all
  from ref_update_final[OF this] e
  show "exc = None \<and> self_t self' = self_t self + 1 \<and>
      (\<forall>i<self_q self. data (self_lambda self') ! i = Fin 0 \<longrightarrow>
         length (get_col (self_Uhat self') i) = self_d self \<and>
         (\<forall>c\<in>set (get_col (self_Uhat self') i). \<not> np_isfinite c))"
    unfolding s by simp
next
  assume a: "shape U = [d, q] \<and> wf_arr U \<and> shape lam = [q] \<and> wf_arr lam \<and> nrows X = d \<and>
    iterate_step X ell n q (lam, U, tr) t = (lam', U', tr')"
  then have "shape U = [d, q]" "wf_arr U" "shape lam = [q]" "wf_arr lam" "nrows X = d"
    "iterate_step X ell n q (lam, U, tr) t = (lam', U', tr')"
    by simp_all
  from iterate_step_final[OF this]
  show "\<forall>i<q. data lam' ! i = Fin 0 \<longrightarrow>
         length (get_col U' i) = d \<and> (\<forall>c\<in>set (get_col U' i). \<not> np_isfinite c)"
    by simp
qed

text \<open>An instance of C5 at the degenerate input, for \<open>fit_next\<close> and for the driver.\<close>

theorem zero_eigenvalue_undetected_witness:
  "fst (fit_next K_id [vec [Fin 0]] E0 0 True) = None \<and>
   self_t (snd (snd (fit_next K_id [vec [Fin 0]] E0 0 True))) = 2 \<and>
   data (self_lambda (snd (snd (fit_next K_id [vec [Fin 0]] E0 0 True)))) ! 0 = Fin 0 \<and>
   length (get_col (self_Uhat (snd (snd (fit_next K_id [vec [Fin 0]] E0 0 True)))) 0) = 1 \<and>
   \<not> np_isfinite (get_col (self_Uhat (snd (snd (fit_next K_id [vec [Fin 0]] E0 0 True)))) 0 ! 0) \<and>
   data (fst (iterate_step X0 2 2 1 (vec [Fin 0], U1, []) 1)) ! 0 = Fin 0 \<and>
   \<not> np_isfinite (get_col (fst (snd (iterate_step X0 2 2 1 (vec [Fin 0], U1, []) 1))) 0 ! 0)"
proof -
  let ?r = "fit_next K_id [vec [Fin 0]] E0 0 True"
  let ?s = "iterate_step X0 2 2 1 (vec [Fin 0], U1, []) 1"
  have h: "wf_est E0 \<and> \<not> self_cython E0 \<and> 0 < length [vec [Fin 0]] \<and>
      shape ([vec [Fin 0]] ! 0) = [self_d E0] \<and> wf_arr ([vec [Fin 0]] ! 0) \<and>
      ?r = (fst ?r, fst (snd ?r), snd (snd ?r))"
    by (simp add: E0_def U1_def wf_est_def wf_arr_def vec_def)
  have l: "data (self_lambda (snd (snd ?r))) ! 0 = Fin 0"
    by (simp add: eval_defs E0_def)
  have g: "shape U1 = [1, 1] \<and> wf_arr U1 \<and> shape (vec [Fin 0]) = [1] \<and> wf_arr (vec [Fin 0]) \<and>
      nrows X0 = 1 \<and> ?s = (fst ?s, fst (snd ?s), snd (snd ?s))"
    by (simp add: U1_def X0_def wf_arr_def vec_def nrows_def)
  have m: "data (fst ?s) ! 0 = Fin 0"
    by (simp add: eval_defs X0_def)
  from zero_eigenvalue_undetected[of E0 0 "[vec [Fin 0]]" K_id True "fst ?r" "fst (snd ?r)"
      "snd (snd ?r)" U1 1 1 "vec [Fin 0]" X0 2 2 "[]" 1 "fst ?s" "fst (snd ?s)" "snd (snd ?s)"]
    h g l m
  have "fst ?r = None \<and> self_t (snd (snd ?r)) = 2 \<and>
      length (get_col (self_Uhat (snd (snd ?r))) 0) = 1 \<and>
      (\<forall>c\<in>set (get_col (self_Uhat (snd (snd ?r))) 0). \<not> np_isfinite c) \<and>
      length (get_col (fst (snd ?s)) 0) = 1 \<and>
      (\<forall>c\<in>set (get_col (fst (snd ?s)) 0). \<not> np_isfinite c)"
    by (simp add: E0_def)
  with l m show ?thesis by (simp add: all_set_conv_all_nth)
qed

section \<open>The caller's sample array\<close>

text \<open>
  C10: with \<open>in_place=False\<close> every array the caller holds, the sample among them, is
  unchanged after the call, on either path and whatever the kernel does. With
  \<open>in_place=True\<close> the working array is the caller's array itself: the optimized path hands
  it to the kernel, and what the kernel leaves in it is what the caller sees; the reference
  path only reads it, since the deflation binds \<open>x\<close> to new arrays, and the caller's array
  is unchanged there too.
\<close>

theorem caller_buffer:
  "(x_arg < length h \<and> fit_next K h self x_arg False = (exc, h', self') \<longrightarrow>
      length h \<le> length h' \<and> take (length h) h' = h \<and> h' ! x_arg = h ! x_arg) \<and>
   (x_arg < length h \<and> \<not> self_cython self \<and> fit_next K h self x_arg True = (exc, h', self') \<longrightarrow>
      length h \<le> length h' \<and> take (length h) h' = h \<and> h' ! x_arg = h ! x_arg) \<and>
   (x_arg < length h \<and> self_cython self \<and> shape (h ! x_arg) = [self_d self] \<and>
    fit_next K h self x_arg True = (exc, h', self') \<longrightarrow>
      h' = h[x_arg := snd (K (h ! x_arg) (self_d self) (real (self_t self)) (self_ell self)
                             (self_lambda self) (self_Uhat self) (self_q self) (self_v self))])"
proof (intro conjI; rule impI)
  assume a: "x_arg < length h \<and> fit_next K h self x_arg False = (exc, h', self')"
  have "\<exists>hs. h' = h @ hs"
  proof (cases "shape (h ! x_arg) = [self_d self]")
    case False
    with a have "h' = h @ [h ! x_arg]" by (auto simp: fit_next_def)
    then show ?thesis by blast
  next
    case True
    show ?thesis
    proof (cases "self_cython self")
      case c: True
      with a True have "h' = h @ [snd (K (h ! x_arg) (self_d self) (real (self_t self)) (self_ell self)
                             (self_lambda self) (self_Uhat self) (self_q self) (self_v self))]"
        by (auto simp: fit_next_def split: prod.splits)
      then show ?thesis by blast
    next
      case False
      from fit_next_ref[OF False _ True, of K False] a show ?thesis by auto
    qed
  qed
  then obtain hs where "h' = h @ hs" by blast
  with a show "length h \<le> length h' \<and> take (length h) h' = h \<and> h' ! x_arg = h ! x_arg"
    by (simp add: nth_append)
next
  assume a: "x_arg < length h \<and> \<not> self_cython self \<and>
    fit_next K h self x_arg True = (exc, h', self')"
  have "\<exists>hs. h' = h @ hs"
  proof (cases "shape (h ! x_arg) = [self_d self]")
    case False
    with a have "h' = h @ []" by (auto simp: fit_next_def)
    then show ?thesis by blast
  next
    case True
    from fit_next_ref[OF _ _ True, of K True] a show ?thesis by auto
  qed
  then obtain hs where "h' = h @ hs" by blast
  with a show "length h \<le> length h' \<and> take (length h) h' = h \<and> h' ! x_arg = h ! x_arg"
    by (simp add: nth_append)
next
  assume "x_arg < length h \<and> self_cython self \<and> shape (h ! x_arg) = [self_d self] \<and>
    fit_next K h self x_arg True = (exc, h', self')"
  then show "h' = h[x_arg := snd (K (h ! x_arg) (self_d self) (real (self_t self)) (self_ell self)
                             (self_lambda self) (self_Uhat self) (self_q self) (self_v self))]"
    by (auto simp: fit_next_def split: prod.splits)
qed

text \<open>An instance of C10 on both paths.\<close>

theorem caller_buffer_witness:
  "fst (snd (fit_next K_id [vec [Fin 1]] E1 0 False)) ! 0 = vec [Fin 1] \<and>
   fst (snd (fit_next K_id [vec [Fin 1]] E1 0 True)) ! 0 = vec [Fin 1] \<and>
   fst (snd (fit_next K_twice [vec [Fin 1]] (E1\<lparr>self_cython := True\<rparr>) 0 True)) = [vec [Fin 2]]"
proof -
  let ?a = "fit_next K_id [vec [Fin 1]] E1 0 False"
  let ?b = "fit_next K_id [vec [Fin 1]] E1 0 True"
  let ?c = "fit_next K_twice [vec [Fin 1]] (E1\<lparr>self_cython := True\<rparr>) 0 True"
  have 1: "0 < length [vec [Fin 1]] \<and> ?a = (fst ?a, fst (snd ?a), snd (snd ?a))" by simp
  have 2: "0 < length [vec [Fin 1]] \<and> \<not> self_cython E1 \<and> ?b = (fst ?b, fst (snd ?b), snd (snd ?b))"
    by (simp add: E1_def)
  have 3: "0 < length [vec [Fin 1]] \<and> self_cython (E1\<lparr>self_cython := True\<rparr>) \<and>
      shape ([vec [Fin 1]] ! 0) = [self_d (E1\<lparr>self_cython := True\<rparr>)] \<and>
      ?c = (fst ?c, fst (snd ?c), snd (snd ?c))"
    by (simp add: E1_def vec_def)
  from caller_buffer[of 0 "[vec [Fin 1]]" K_id E1 "fst ?a" "fst (snd ?a)" "snd (snd ?a)"] 1
  have A: "fst (snd ?a) ! 0 = vec [Fin 1]" by simp
  from caller_buffer[of 0 "[vec [Fin 1]]" K_id E1 "fst ?b" "fst (snd ?b)" "snd (snd ?b)"] 2
  have B: "fst (snd ?b) ! 0 = vec [Fin 1]" by simp
  from caller_buffer[of 0 "[vec [Fin 1]]" K_twice "E1\<lparr>self_cython := True\<rparr>"
      "fst ?c" "fst (snd ?c)" "snd (snd ?c)"] 3
  have C: "fst (snd ?c) = [vec [Fin 2]]" by (simp add: K_twice_def vec_def)
  from A B C show ?thesis by simp
qed

text \<open>
  C10, as stated, fails: on the reference path with \<open>in_place=True\<close> and the sample \<open>[1]\<close>,
  the deflated working vector is \<open>[0]\<close>, a new array at address 1, and the caller's array at
  address 0 still holds \<open>[1]\<close>.
\<close>

theorem in_place_counterexample:
  "fit_next K_id [vec [Fin 1]] E1 0 True =
     (None, [vec [Fin 1], vec [Fin 0]], E1\<lparr>self_lambda := vec [Fin 2], self_t := 2\<rparr>)"
  by (simp add: fit_next_def E1_def U1_def vec_def col_step.simps get_col_def set_col_def
      nrows_def ncols_def vadd_def vsub_def scal_def vdiv_def dot_def sqrt4)

section \<open>The streaming driver's schedule and result\<close>

lemma map_mod_block: "map (\<lambda>t. t mod n) [e * n..<e * n + n] = [0..<n]"
proof (rule nth_equalityI)
  show "length (map (\<lambda>t. t mod n) [e * n..<e * n + n]) = length [0..<n]" by simp
next
  fix i assume "i < length (map (\<lambda>t. t mod n) [e * n..<e * n + n])"
  then have "i < n" by simp
  then show "map (\<lambda>t. t mod n) [e * n..<e * n + n] ! i = [0..<n] ! i" by simp
qed

lemma map_mod_epochs: "map (\<lambda>t. t mod n) [0..<e * n] = concat (replicate e [0..<n])"
proof (induction e)
  case 0
  show ?case by simp
next
  case (Suc e)
  have "[0..<Suc e * n] = [0..<e * n] @ [e * n..<e * n + n]"
    using upt_add_eq_append[of 0 "e * n" n] by (simp add: add.commute)
  then have "map (\<lambda>t. t mod n) [0..<Suc e * n] = concat (replicate e [0..<n]) @ [0..<n]"
    using Suc.IH by (simp add: map_mod_block)
  also have "\<dots> = concat (replicate (Suc e) [0..<n])"
    by (simp add: replicate_append_same[symmetric])
  finally show ?case .
qed

lemma upt_from_1: "[Suc 0..<k] = tl [0..<k]"
  by (simp add: upt_rec[of 0 k])

lemma mod_schedule: "map (\<lambda>t. t mod n) [Suc 0..<e * n] = tl (concat (replicate e [0..<n]))"
  unfolding upt_from_1 map_tl map_mod_epochs ..

lemma ref_update_sample_update:
  "ref_update self xs =
     (case sample_update (real (self_t self)) (self_ell self) (self_q self)
             (self_lambda self, self_Uhat self) xs of
        (lam', U') \<Rightarrow> self\<lparr>self_Uhat := U', self_lambda := lam', self_t := self_t self + 1\<rparr>)"
  by (simp add: ref_update_def sample_update_def split: prod.splits)

lemma iterate_step_eq:
  "iterate_step X ell n q (lam, U, tr) t =
     (case sample_update (real t) ell q (lam, U) (get_col X (t mod n)) of
        (lam', U') \<Rightarrow> (lam', U', tr @ [(t, t mod n)]))"
  by (simp add: iterate_step_def sample_update_def Let_def foldl_iterate_col_step
      split: prod.splits)

lemma iterate_fold:
  "foldl (iterate_step X ell n q) (lam, U, tr) ts =
     (case updates_on X ell q (lam, U) (map (\<lambda>t. (t, t mod n)) ts) of
        (lam', U') \<Rightarrow> (lam', U', tr @ map (\<lambda>t. (t, t mod n)) ts))"
proof (induction ts arbitrary: lam U tr)
  case Nil
  show ?case by (simp add: updates_on_def)
next
  case (Cons t ts)
  obtain la Ua where s: "sample_update (real t) ell q (lam, U) (get_col X (t mod n)) = (la, Ua)"
    by (cases "sample_update (real t) ell q (lam, U) (get_col X (t mod n))") auto
  have "updates_on X ell q (lam, U) (map (\<lambda>t. (t, t mod n)) (t # ts)) =
        updates_on X ell q (la, Ua) (map (\<lambda>t. (t, t mod n)) ts)"
    using s by (simp add: updates_on_def)
  then show ?case using Cons.IH[of la Ua "tr @ [(t, t mod n)]"] s
    by (simp add: iterate_step_eq)
qed

lemma schedule_eq: "map (\<lambda>t. (t, t mod n)) [Suc 0..<e * n] = schedule e n"
proof -
  have "zip xs (map f xs) = map (\<lambda>x. (x, f x)) xs" for xs :: "nat list" and f :: "nat \<Rightarrow> nat"
    by (induction xs) simp_all
  from this[of "[Suc 0..<e * n]" "\<lambda>t. t mod n"] show ?thesis
    by (simp add: schedule_def mod_schedule)
qed

lemma schedule_facts:
  "map fst (schedule e n) = [Suc 0..<e * n]"
  "map snd (schedule e n) = tl (concat (replicate e [0..<n]))"
  "length (schedule e n) = e * n - 1"
proof -
  show "map fst (schedule e n) = [Suc 0..<e * n]"
    unfolding schedule_eq[symmetric] by (simp add: comp_def)
  show "map snd (schedule e n) = tl (concat (replicate e [0..<n]))"
    unfolding schedule_eq[symmetric] by (simp add: comp_def mod_schedule)
  show "length (schedule e n) = e * n - 1"
    unfolding schedule_eq[symmetric] by simp
qed

lemma iterate_loop_eq:
  "iterate_loop X lam U ell (e * n) n q =
     (fst (updates_on X ell q (lam, U) (schedule e n)),
      snd (updates_on X ell q (lam, U) (schedule e n)), schedule e n)"
  by (simp add: iterate_loop_def iterate_fold schedule_eq split: prod.splits)

lemma errs_states:
  "(case foldl (\<lambda>(lambda, Uhat, errs) t.
                  (let j = t mod n;
                       errs = errs @ [(t, Uhat)];
                       x = get_col X j
                   in (case foldl (col_step (real t) ell) (lambda, Uhat, x) [0..<q] of
                         (lambda, Uhat, x) \<Rightarrow> (lambda, Uhat, errs))))
                (lam, U, e0) ts of
            (lambda, Uhat, errs) \<Rightarrow> errs) =
     e0 @ map (\<lambda>k. (ts ! k, snd (updates_on X ell q (lam, U)
                                   (take k (map (\<lambda>t. (t, t mod n)) ts)))))
            [0..<length ts]"
proof (induction ts arbitrary: lam U e0)
  case Nil
  show ?case by simp
next
  case (Cons t ts)
  obtain la Ua xa where
    f: "foldl (col_step (real t) ell) (lam, U, get_col X (t mod n)) [0..<q] = (la, Ua, xa)"
    by (cases "foldl (col_step (real t) ell) (lam, U, get_col X (t mod n)) [0..<q]") auto
  then have s: "sample_update (real t) ell q (lam, U) (get_col X (t mod n)) = (la, Ua)"
    by (simp add: sample_update_def)
  have u: "updates_on X ell q (lam, U) ((t, t mod n) # rest) = updates_on X ell q (la, Ua) rest"
    for rest using s by (simp add: updates_on_def)
  have "[0..<Suc (length ts)] = 0 # map Suc [0..<length ts]"
    unfolding map_Suc_upt by (rule upt_conv_Cons) simp
  then have "[0..<length (t # ts)] = 0 # map Suc [0..<length ts]"
    by simp
  then have "map (\<lambda>k. ((t # ts) ! k, snd (updates_on X ell q (lam, U)
                                   (take k (map (\<lambda>t. (t, t mod n)) (t # ts))))))
            [0..<length (t # ts)] =
        (t, U) # map (\<lambda>k. (ts ! k, snd (updates_on X ell q (la, Ua)
                                   (take k (map (\<lambda>t. (t, t mod n)) ts)))))
            [0..<length ts]"
    by (simp add: comp_def updates_on_def s del: upt_Suc)
  then show ?case using Cons.IH[of la Ua "e0 @ [(t, U)]"] f
    by (simp add: Let_def)
qed

lemma errors_states:
  "iterate_and_compute_errors (\<lambda>opt k. []) (\<lambda>opt Uhat t errs. errs @ [(t, Uhat)])
     X lam U ell (e * n) n q eo =
   map (\<lambda>k. (Suc k, snd (updates_on X ell q (lam, U) (take k (schedule e n))))) [0..<e * n - 1]"
proof -
  have "iterate_and_compute_errors (\<lambda>opt k. []) (\<lambda>opt Uhat t errs. errs @ [(t, Uhat)])
     X lam U ell (e * n) n q eo =
     map (\<lambda>k. ([Suc 0..<e * n] ! k, snd (updates_on X ell q (lam, U)
                                   (take k (map (\<lambda>t. (t, t mod n)) [Suc 0..<e * n])))))
            [0..<length [Suc 0..<e * n]]"
    unfolding iterate_and_compute_errors_def Let_def
    using errs_states[unfolded Let_def, where ?e0.0 = "[]" and ts = "[Suc 0..<e * n]"]
    by simp
  also have "\<dots> = map (\<lambda>k. (Suc k, snd (updates_on X ell q (lam, U) (take k (schedule e n)))))
      [0..<e * n - 1]"
    by (rule map_cong) (simp_all add: schedule_eq)
  finally show ?thesis .
qed

text \<open>
  C2: with \<open>n_its = n_epoch * n\<close>, the loop of \<open>_iterate\<close> makes exactly the single-sample
  updates of the schedule, in order: \<open>n_epoch * n - 1\<close> of them, at \<open>t = 1, ..., n_its - 1\<close>,
  the one at \<open>t\<close> on column \<open>t mod n\<close> of \<open>X\<close>. The columns are those of \<open>n_epoch\<close> passes
  \<open>0, ..., n - 1\<close> without the first: the first pass starts at column 1, and every later
  pass starts again at column 0. The result of \<open>_iterate\<close> is the \<open>Uhat\<close> after these updates.
  The loop of \<open>_iterate_and_compute_errors\<close> makes the same updates: at iteration \<open>t\<close> the
  evaluator is handed the \<open>Uhat\<close> after the first \<open>t - 1\<close> of them.
\<close>

theorem driver_schedule:
  "iterate_loop X lam U ell (n_epoch * n) n q =
     (fst (updates_on X ell q (lam, U) (schedule n_epoch n)),
      snd (updates_on X ell q (lam, U) (schedule n_epoch n)), schedule n_epoch n) \<and>
   iterate X lam U ell (n_epoch * n) n q =
     snd (updates_on X ell q (lam, U) (schedule n_epoch n)) \<and>
   map fst (schedule n_epoch n) = [1..<n_epoch * n] \<and>
   map snd (schedule n_epoch n) = tl (concat (replicate n_epoch [0..<n])) \<and>
   length (schedule n_epoch n) = n_epoch * n - 1 \<and>
   iterate_and_compute_errors (\<lambda>opt k. []) (\<lambda>opt Uhat t errs. errs @ [(t, Uhat)])
     X lam U ell (n_epoch * n) n q eo =
   map (\<lambda>k. (Suc k, snd (updates_on X ell q (lam, U) (take k (schedule n_epoch n)))))
     [0..<n_epoch * n - 1]"
  by (simp add: iterate_loop_eq iterate_def schedule_facts errors_states)

text \<open>
  Instances of C2. Two passes over the columns \<open>[2]\<close> and \<open>[1]\<close>, from \<open>lambda = [1]\<close>: the
  updates use the samples 1, 2, 1 and give \<open>lambda = 2, 14/3, 23/12\<close>. One pass over the
  columns \<open>[1, 0]\<close> and \<open>[5, 5]\<close>, from \<open>Uhat = [[1], [0]]\<close> and \<open>lambda = [25]\<close>: the one
  update, on \<open>[5, 5]\<close>, gives \<open>Uhat = [[4/5], [3/5]]\<close>.
\<close>

lemma sqrt_vals2: "sqrt (196 / 9) = 14 / 3" "sqrt (529 / 144) = 23 / 12" "sqrt (169 / 4) = 13 / 2"
  by (rule real_sqrt_unique; simp add: power2_eq_square)+

lemma get_col_12:
  "get_col \<lparr>shape = [Suc 0, 2], data = [a, b]\<rparr> 0 = [a]"
  "get_col \<lparr>shape = [Suc 0, 2], data = [a, b]\<rparr> (Suc 0) = [b]"
  by (simp_all add: get_col_def nrows_def ncols_def)

lemma sample_update_11:
  "sample_update 1 2 (Suc 0) (vec [Fin 1], U1) [Fin 1] = (vec [Fin 2], U1)"
  "sample_update 2 2 (Suc 0) (vec [Fin 2], U1) [Fin 2] = (vec [Fin (14 / 3)], U1)"
  "sample_update 3 2 (Suc 0) (vec [Fin (14 / 3)], U1) [Fin 1] = (vec [Fin (23 / 12)], U1)"
  by (simp_all add: sample_update_def col_step.simps Let_def U1_def vec_def get_col_def
      set_col_def nrows_def ncols_def vadd_def vsub_def scal_def vdiv_def dot_def
      sqrt4 sqrt_vals2)

lemma sample_update_21:
  "sample_update 1 2 (Suc 0) (vec [Fin 25], U4) [Fin 5, Fin 5] =
     (vec [Fin (125 / 2)], \<lparr>shape = [2, 1], data = [Fin (4 / 5), Fin (3 / 5)]\<rparr>)"
  by (simp add: sample_update_def col_step.simps Let_def U4_def vec_def get_col_def
      set_col_def nrows_def ncols_def vadd_def vsub_def scal_def vdiv_def dot_def
      sqrt_vals upt2)

lemma schedule_12: "schedule (Suc 0) 2 = [(Suc 0, Suc 0)]"
  by (simp add: schedule_def upt_conv_Cons)

lemma schedule_22: "schedule 2 2 = [(1, 1), (2, 0), (3, 1)]"
  by (simp add: schedule_def upt_conv_Cons numeral_2_eq_2)

theorem driver_schedule_witness:
  "iterate_loop X3 (vec [Fin 1]) U1 2 (2 * 2) 2 1 =
     (vec [Fin (23 / 12)], U1, [(1, 1), (2, 0), (3, 1)]) \<and>
   iterate X3 (vec [Fin 1]) U1 2 (2 * 2) 2 1 = U1 \<and>
   iterate_and_compute_errors (\<lambda>(opt::unit) k. []) (\<lambda>opt Uhat t errs. errs @ [(t, Uhat)])
     X3 (vec [Fin 1]) U1 2 (2 * 2) 2 1 () = [(1, U1), (2, U1), (3, U1)] \<and>
   iterate X4 (vec [Fin 25]) U4 2 (1 * 2) 2 1 =
     \<lparr>shape = [2, 1], data = [Fin (4 / 5), Fin (3 / 5)]\<rparr>"
proof -
  have u: "updates_on X3 2 (Suc 0) (vec [Fin 1], U1) [(Suc 0, Suc 0), (2, 0), (3, Suc 0)] =
      (vec [Fin (23 / 12)], U1)"
    "updates_on X3 2 (Suc 0) (vec [Fin 1], U1) [] = (vec [Fin 1], U1)"
    "updates_on X3 2 (Suc 0) (vec [Fin 1], U1) [(Suc 0, Suc 0)] = (vec [Fin 2], U1)"
    "updates_on X3 2 (Suc 0) (vec [Fin 1], U1) [(Suc 0, Suc 0), (2, 0)] = (vec [Fin (14 / 3)], U1)"
    by (simp_all add: updates_on_def X3_def get_col_12 sample_update_11)
  have v: "updates_on X4 2 (Suc 0) (vec [Fin 25], U4) [(Suc 0, Suc 0)] =
      (vec [Fin (125 / 2)], \<lparr>shape = [2, Suc 0], data = [Fin (4 / 5), Fin (3 / 5)]\<rparr>)"
    using sample_update_21 by (simp add: updates_on_def X4_def get_col_22)
  from driver_schedule[of X3 "vec [Fin 1]" U1 2 2 2 1 "()"]
  have A: "iterate_loop X3 (vec [Fin 1]) U1 2 (2 * 2) 2 1 =
     (vec [Fin (23 / 12)], U1, [(1, 1), (2, 0), (3, 1)]) \<and>
   iterate X3 (vec [Fin 1]) U1 2 (2 * 2) 2 1 = U1 \<and>
   iterate_and_compute_errors (\<lambda>(opt::unit) k. []) (\<lambda>opt Uhat t errs. errs @ [(t, Uhat)])
     X3 (vec [Fin 1]) U1 2 (2 * 2) 2 1 () = [(1, U1), (2, U1), (3, U1)]"
    by (simp add: schedule_22 u upt_conv_Cons)
  from driver_schedule[of X4 "vec [Fin 25]" U4 2 1 2 1 "()"]
  have B: "iterate X4 (vec [Fin 25]) U4 2 (1 * 2) 2 1 =
     \<lparr>shape = [2, 1], data = [Fin (4 / 5), Fin (3 / 5)]\<rparr>"
    by (simp add: schedule_12 v)
  from A B show ?thesis by simp
qed

text \<open>
  C2, as stated, fails: one pass over the two columns makes one update, on column 1
  (\<open>lambda\<close> becomes 2; an update on column 0 would make it \<open>13/2\<close>), where the claim has two
  updates, on columns 0 and 1.
\<close>

theorem driver_schedule_counterexample:
  "iterate_loop X3 (vec [Fin 1]) U1 2 (1 * 2) 2 1 = (vec [Fin 2], U1, [(1, 1)]) \<and>
   updates_on X3 2 1 (vec [Fin 1], U1) [(1, 1)] = (vec [Fin 2], U1) \<and>
   updates_on X3 2 1 (vec [Fin 1], U1) [(1, 0)] = (vec [Fin (13 / 2)], U1) \<and>
   concat (replicate 1 [0..<2]) = [0, 1::nat]"
  by (simp add: iterate_loop_def iterate_step_def iterate_col_step.simps updates_on_def
      sample_update_def col_step.simps Let_def X3_def U1_def vec_def get_col_def
      set_col_def nrows_def ncols_def vadd_def vsub_def scal_def vdiv_def dot_def
      sqrt4 sqrt_vals2 upt_conv_Cons)

lemma errs_unchanged:
  "(case foldl (\<lambda>(lambda, Uhat, errs) t.
                  (let j = t mod n;
                       errs = errs;
                       x = get_col X j
                   in (case foldl (col_step (real t) ell) (lambda, Uhat, x) [0..<q] of
                         (lambda, Uhat, x) \<Rightarrow> (lambda, Uhat, errs))))
                (lam, U, e0) ts of
            (lambda, Uhat, errs) \<Rightarrow> errs) = e0"
proof (induction ts arbitrary: lam U)
  case Nil
  show ?case by simp
next
  case (Cons t ts)
  obtain la Ua xa where
    "foldl (col_step (real t) ell) (lam, U, get_col X (t mod n)) [0..<q] = (la, Ua, xa)"
    by (cases "foldl (col_step (real t) ell) (lam, U, get_col X (t mod n)) [0..<q]") auto
  then show ?case using Cons.IH[of la Ua] by (simp add: Let_def)
qed

lemma CCIPCA_ok:
  assumes "shape X = [d, n]" and "initial_Uhat z d q Uhat0 = Inr (U, used)"
    and "initial_lambda (\<lambda>k. z (used + k)) q lambda0 = Inr l"
  shows "CCIPCA I C z X q n_epoch None Uhat0 lambda0 ell =
           Inr (PyArray (iterate X l U ell (n_epoch * n) n q))"
    and "CCIPCA I C z X q n_epoch (Some eo) Uhat0 lambda0 ell =
           Inr (PyErrs (iterate_and_compute_errors I C X l U ell (n_epoch * n) n q eo))"
  using assms by (simp_all add: CCIPCA_def Let_def)

lemma CCIPCA_result:
  assumes "CCIPCA I C z X q n_epoch opts Uhat0 lambda0 ell = Inr r"
  shows "(opts = None \<longrightarrow> (\<exists>A. r = PyArray A)) \<and> (opts \<noteq> None \<longrightarrow> (\<exists>e. r = PyErrs e))"
  using assms
  by (auto simp: CCIPCA_def Let_def split: list.splits sum.splits prod.splits option.splits)

text \<open>
  C3: when the initial guesses are accepted, \<open>CCIPCA\<close> without error options returns the
  final \<open>Uhat\<close> alone, and with error options it returns the error container, which is the
  one made by \<open>initialize_errors(error_options, n_epoch * n)\<close> (it comes back as made when
  the evaluator writes nothing). A call that returns gives an array exactly when no error
  options were passed and an error container exactly when they were.
\<close>

theorem ccipca_return_shape:
  "(shape X = [d, n] \<and> initial_Uhat z d q Uhat0 = Inr (U, used) \<and>
    initial_lambda (\<lambda>k. z (used + k)) q lambda0 = Inr l \<longrightarrow>
      CCIPCA I C z X q n_epoch None Uhat0 lambda0 ell =
        Inr (PyArray (iterate X l U ell (n_epoch * n) n q)) \<and>
      CCIPCA I C z X q n_epoch (Some eo) Uhat0 lambda0 ell =
        Inr (PyErrs (iterate_and_compute_errors I C X l U ell (n_epoch * n) n q eo)) \<and>
      iterate_and_compute_errors I (\<lambda>opt Uhat t errs. errs) X l U ell (n_epoch * n) n q eo =
        I eo (n_epoch * n)) \<and>
   (CCIPCA I C z X q n_epoch opts Uhat0 lambda0 ell = Inr r \<longrightarrow>
      (opts = None \<longrightarrow> (\<exists>A. r = PyArray A)) \<and> (opts \<noteq> None \<longrightarrow> (\<exists>e. r = PyErrs e)))"
proof (rule conjI; rule impI)
  assume a: "shape X = [d, n] \<and> initial_Uhat z d q Uhat0 = Inr (U, used) \<and>
    initial_lambda (\<lambda>k. z (used + k)) q lambda0 = Inr l"
  then have h: "shape X = [d, n]" "initial_Uhat z d q Uhat0 = Inr (U, used)"
    "initial_lambda (\<lambda>k. z (used + k)) q lambda0 = Inr l" by simp_all
  have "iterate_and_compute_errors I (\<lambda>opt Uhat t errs. errs) X l U ell (n_epoch * n) n q eo =
        I eo (n_epoch * n)"
    unfolding iterate_and_compute_errors_def Let_def
    using errs_unchanged[unfolded Let_def] by simp
  with CCIPCA_ok(1)[OF h, of I C n_epoch ell] CCIPCA_ok(2)[OF h, of I C n_epoch eo ell]
  show "CCIPCA I C z X q n_epoch None Uhat0 lambda0 ell =
        Inr (PyArray (iterate X l U ell (n_epoch * n) n q)) \<and>
      CCIPCA I C z X q n_epoch (Some eo) Uhat0 lambda0 ell =
        Inr (PyErrs (iterate_and_compute_errors I C X l U ell (n_epoch * n) n q eo)) \<and>
      iterate_and_compute_errors I (\<lambda>opt Uhat t errs. errs) X l U ell (n_epoch * n) n q eo =
        I eo (n_epoch * n)"
    by simp
next
  assume "CCIPCA I C z X q n_epoch opts Uhat0 lambda0 ell = Inr r"
  then show "(opts = None \<longrightarrow> (\<exists>A. r = PyArray A)) \<and> (opts \<noteq> None \<longrightarrow> (\<exists>e. r = PyErrs e))"
    by (rule CCIPCA_result)
qed

lemma iterate_X2:
  "iterate_loop X2 (vec [Fin 1]) U1 2 2 2 (Suc 0) = (vec [Fin 2], U1, [(Suc 0, Suc 0)])"
  by (simp add: iterate_loop_def upt_conv_Cons eval_defs X2_def sqrt4)

text \<open>An instance of C3, with and without error options.\<close>

theorem ccipca_return_shape_witness:
  "CCIPCA (\<lambda>(opt::unit) n. n) (\<lambda>opt Uhat t errs. errs) (\<lambda>k. 0) X2 1 1 None
       (Some U1) (Some (vec [Fin 1])) 2 = Inr (PyArray U1) \<and>
   CCIPCA (\<lambda>(opt::unit) n. n) (\<lambda>opt Uhat t errs. errs) (\<lambda>k. 0) X2 1 1 (Some ())
       (Some U1) (Some (vec [Fin 1])) 2 = Inr (PyErrs 2)"
proof -
  have h: "shape X2 = [1, 2] \<and> initial_Uhat (\<lambda>k. 0) 1 1 (Some U1) = Inr (U1, 0) \<and>
      initial_lambda (\<lambda>k. (\<lambda>k. 0) (0 + k)) 1 (Some (vec [Fin 1])) = Inr (vec [Fin 1])"
    by (simp add: X2_def U1_def initial_Uhat_def initial_lambda_def vec_def)
  have i: "iterate X2 (vec [Fin 1]) U1 2 (1 * 2) 2 1 = U1"
    by (simp add: iterate_def iterate_X2)
  from ccipca_return_shape[of X2 1 2 "\<lambda>k. 0" 1 "Some U1" U1 0 "Some (vec [Fin 1])" "vec [Fin 1]"
      "\<lambda>(opt::unit) n. n" "\<lambda>opt Uhat t errs. errs" 1 2 "()"] h i
  show ?thesis by simp
qed

text \<open>
  C3, as stated, fails: without error options the result is the array \<open>Uhat\<close>, not the pair
  of \<open>Uhat\<close> and the final \<open>lambda = [2]\<close>.
\<close>

theorem ccipca_return_counterexample:
  "CCIPCA (\<lambda>(opt::unit) n. n) (\<lambda>opt Uhat t errs. errs) (\<lambda>k. 0) X2 1 1 None
       (Some U1) (Some (vec [Fin 1])) 2 = Inr (PyArray U1) \<and>
   iterate_loop X2 (vec [Fin 1]) U1 2 (1 * 2) 2 1 = (vec [Fin 2], U1, [(1, 1)]) \<and>
   Inr (PyArray U1) \<noteq>
     (Inr (PyTuple [PyArray U1, PyArray (vec [Fin 2])]) :: error + nat pyval)"
  by (simp add: CCIPCA_def X2_def[THEN arg_cong, of shape] initial_Uhat_def initial_lambda_def
      iterate_def iterate_X2 U1_def[THEN arg_cong, of shape] vec_def[THEN arg_cong, of shape])

section \<open>The batch update and the constructor\<close>

text \<open>
  C4: \<open>fit\<close> assigns \<open>Uhat\<close> and \<open>lambda\<close> from the kernel's result and leaves the counter as
  it was, whatever the kernel computes and however many columns \<open>X\<close> has.
\<close>

theorem fit_leaves_counter:
  "fit K self X = Inr self' \<Longrightarrow> self_t self' = self_t self"
  by (auto simp: fit_def Let_def split: if_splits prod.splits)

text \<open>An instance of C4: after \<open>fit\<close> on two columns the counter is still 1.\<close>

theorem fit_leaves_counter_witness:
  "fit KT_id E1 X2 = Inr E1 \<and> self_t E1 = 1 \<and> last (shape X2) = 2"
proof -
  have h: "fit KT_id E1 X2 = Inr E1"
    by (simp add: fit_def KT_id_def X2_def E1_def)
  from fit_leaves_counter[OF h] h show ?thesis by (simp add: E1_def X2_def)
qed

lemma initial_Uhat_mismatch:
  "shape U0 \<noteq> [d, q] \<Longrightarrow> initial_Uhat z d q (Some U0) = Inl AssertionError"
  by (simp add: initial_Uhat_def)

lemma initial_lambda_mismatch:
  "shape l0 \<noteq> [q] \<Longrightarrow> initial_lambda z q (Some l0) = Inl AssertionError"
  by (simp add: initial_lambda_def)

lemma initial_Uhat_cases:
  "0 < d \<Longrightarrow> initial_Uhat z d q Uhat0 = Inl AssertionError \<or> (\<exists>U used. initial_Uhat z d q Uhat0 = Inr (U, used))"
  by (simp add: initial_Uhat_def split: option.splits)

text \<open>
  C6: for \<open>d \<ge> 1\<close>, an initial guess \<open>Uhat0\<close> whose shape is not \<open>(d, q)\<close> or an initial guess
  \<open>lambda0\<close> whose shape is not \<open>(q,)\<close> makes the constructor, and \<open>CCIPCA\<close> on a \<open>d\<close> by \<open>n\<close>
  matrix, raise \<open>AssertionError\<close>; no estimator is returned.
\<close>

theorem guess_shape_mismatch:
  "0 < d \<and> ((\<exists>U0. Uhat0 = Some U0 \<and> shape U0 \<noteq> [d, q]) \<or>
            (\<exists>l0. lambda0 = Some l0 \<and> shape l0 \<noteq> [q])) \<longrightarrow>
     CCIPCA_CLASS_init z q d Uhat0 lambda0 ell cy = Inl AssertionError \<and>
     (shape X = [d, n] \<longrightarrow> CCIPCA I C z X q n_epoch opts Uhat0 lambda0 ell = Inl AssertionError)"
proof (rule impI)
  assume a: "0 < d \<and> ((\<exists>U0. Uhat0 = Some U0 \<and> shape U0 \<noteq> [d, q]) \<or>
            (\<exists>l0. lambda0 = Some l0 \<and> shape l0 \<noteq> [q]))"
  then have d: "0 < d" by simp
  from a consider (U) U0 where "Uhat0 = Some U0" "shape U0 \<noteq> [d, q]"
    | (l) l0 where "lambda0 = Some l0" "shape l0 \<noteq> [q]" by blast
  then show "CCIPCA_CLASS_init z q d Uhat0 lambda0 ell cy = Inl AssertionError \<and>
     (shape X = [d, n] \<longrightarrow> CCIPCA I C z X q n_epoch opts Uhat0 lambda0 ell = Inl AssertionError)"
  proof cases
    case U
    then show ?thesis
      by (simp add: CCIPCA_CLASS_init_def CCIPCA_def initial_Uhat_mismatch)
  next
    case l
    from initial_Uhat_cases[OF d, of z q Uhat0] show ?thesis
    proof
      assume "initial_Uhat z d q Uhat0 = Inl AssertionError"
      then show ?thesis by (simp add: CCIPCA_CLASS_init_def CCIPCA_def)
    next
      assume "\<exists>U used. initial_Uhat z d q Uhat0 = Inr (U, used)"
      then obtain U used where "initial_Uhat z d q Uhat0 = Inr (U, used)" by blast
      then show ?thesis using l
        by (simp add: CCIPCA_CLASS_init_def CCIPCA_def initial_lambda_mismatch)
    qed
  qed
qed

text \<open>An instance of C6 for each of the two guesses and for \<open>CCIPCA\<close>.\<close>

theorem guess_shape_mismatch_witness:
  "CCIPCA_CLASS_init (\<lambda>k. 0) 1 1 (Some W2) None 2 False = Inl AssertionError \<and>
   CCIPCA_CLASS_init (\<lambda>k. 0) 1 1 None (Some (vec [Fin 1, Fin 1])) 2 False = Inl AssertionError \<and>
   CCIPCA (\<lambda>(opt::unit) n. n) (\<lambda>opt Uhat t errs. errs) (\<lambda>k. 0) X2 1 1 None (Some W2) None 2 =
     Inl AssertionError"
proof -
  have a: "0 < (1::nat) \<and> ((\<exists>U0. Some W2 = Some U0 \<and> shape U0 \<noteq> [1, 1]) \<or>
            (\<exists>l0. (None :: ndarray option) = Some l0 \<and> shape l0 \<noteq> [1]))"
    by (simp add: W2_def)
  have b: "0 < (1::nat) \<and> ((\<exists>U0. (None :: ndarray option) = Some U0 \<and> shape U0 \<noteq> [1, 1]) \<or>
            (\<exists>l0. Some (vec [Fin 1, Fin 1]) = Some l0 \<and> shape l0 \<noteq> [1]))"
    by (simp add: vec_def)
  have x: "shape X2 = [1, 2]" by (simp add: X2_def)
  from guess_shape_mismatch[of 1 "Some W2" 1 None "\<lambda>k. 0" 2 False X2 2
      "\<lambda>(opt::unit) n. n" "\<lambda>opt Uhat t errs. errs" 1 None] a x
    guess_shape_mismatch[of 1 None 1 "Some (vec [Fin 1, Fin 1])" "\<lambda>k. 0" 2 False X2 2
      "\<lambda>(opt::unit) n. n" "\<lambda>opt Uhat t errs. errs" 1 None] b
  show ?thesis by simp
qed

text \<open>
  C6, as stated, fails: \<open>q = 0\<close> and \<open>q = 2 > d = 1\<close> are accepted, and an estimator is
  built.
\<close>

theorem unchecked_q_counterexample:
  "CCIPCA_CLASS_init (\<lambda>k. 0) 0 1 None None 2 True =
     Inr \<lparr>self_Uhat = \<lparr>shape = [1, 0], data = []\<rparr>, self_lambda = \<lparr>shape = [0], data = []\<rparr>,
          self_t = 1, self_q = 0, self_d = 1, self_ell = 2, self_cython = True,
          self_v = np_zeros 1\<rparr> \<and>
   CCIPCA_CLASS_init (\<lambda>k. 0) 2 1 (Some W2) (Some (vec [Fin 1, Fin 1])) 2 True =
     Inr \<lparr>self_Uhat = W2, self_lambda = vec [Fin 1, Fin 1],
          self_t = 1, self_q = 2, self_d = 1, self_ell = 2, self_cython = True,
          self_v = np_zeros 1\<rparr>"
  by (simp add: CCIPCA_CLASS_init_def initial_Uhat_def initial_lambda_def np_random_normal_def
      W2_def vec_def vdiv_def)

end
